theory Spec2Isabelle
  imports Main "HOL-Library.Word"
begin

section \<open>Strings\<close>

text \<open>
  A JavaScript string is a sequence of UTF-16 code units; \<open>length\<close>, \<open>slice\<close> and
  \<open>+\<close> count and move code units. \<open>js\<close> embeds an ASCII literal of the source.
\<close>

type_synonym js_string = "16 word list"

definition js :: "string \<Rightarrow> js_string" where
  "js s = map (\<lambda>c. of_nat (of_char c)) s"

text \<open>\<open>s.slice(0, n)\<close> for a non-negative \<open>n\<close>: the first \<open>n\<close> code units, or all of
  \<open>s\<close> when it is shorter.\<close>

definition slice0 :: "nat \<Rightarrow> js_string \<Rightarrow> js_string" where
  "slice0 n s = take n s"

section \<open>The conversation store (queries.ts)\<close>

text \<open>The \<open>Message\<close> of the \<open>ai\<close> package, as far as the store reads it. The type of
  the id is a parameter: an inbound message carries a string id, a stored one the id of its
  row.\<close>

datatype role = User | Assistant | System | Data

record 'i message =
  msg_id :: 'i
  role :: role
  content :: js_string

text \<open>The tables \<open>chats\<close> and \<open>messages\<close>. \<open>chats.id\<close> is the primary key, so the
  table is a map from the id to the rest of the row. Timestamps are numbers; the id of a
  message row is generated by the database, here from a counter.\<close>

record chat_row =
  chat_title :: js_string
  chat_userId :: js_string
  createdAt :: nat
  updatedAt :: nat

record message_row =
  row_id :: nat
  row_chatId :: js_string
  row_role :: role
  parts :: js_string
  row_order :: nat

record db =
  chats :: "js_string \<rightharpoonup> chat_row"
  messages :: "message_row list"
  next_row_id :: nat

definition empty_db :: db where
  "empty_db = \<lparr>chats = Map.empty, messages = [], next_row_id = 0\<rparr>"

datatype error =
  ChatNotOwned  \<comment> \<open>\<open>Error("Chat does not belong to the logged in user")\<close>\<close>
  | ModelProviderError
  | SearchProviderError
  | FnRejected js_string

record upsert_opts =
  userId :: js_string
  chatId :: js_string
  title :: js_string
  opt_messages :: "js_string message list"

text \<open>\<open>db.select().from(chats).where(eq(chats.id, chatId)).limit(1)\<close>\<close>

definition select_chat :: "db \<Rightarrow> js_string \<Rightarrow> (js_string \<times> chat_row) list" where
  "select_chat d cid = (case chats d cid of None \<Rightarrow> [] | Some r \<Rightarrow> [(cid, r)])"

text \<open>\<open>db.delete(messages).where(eq(messages.chatId, chatId))\<close>\<close>

definition delete_messages :: "js_string \<Rightarrow> db \<Rightarrow> db" where
  "delete_messages cid d = d\<lparr>messages := filter (\<lambda>m. row_chatId m \<noteq> cid) (messages d)\<rparr>"

text \<open>\<open>db.insert(chats).values({id, title, userId, updatedAt}).onConflictDoUpdate({target:
  chats.id, set: {title, updatedAt}})\<close>: a new row takes every value (and the default
  \<open>createdAt\<close>); a row that is there keeps its \<open>userId\<close> and \<open>createdAt\<close>.\<close>

definition insert_chat :: "nat \<Rightarrow> js_string \<Rightarrow> js_string \<Rightarrow> js_string \<Rightarrow> db \<Rightarrow> db" where
  "insert_chat now cid ttl uid d =
     (case chats d cid of
        None \<Rightarrow> d\<lparr>chats := (chats d)(cid \<mapsto>
                 \<lparr>chat_title = ttl, chat_userId = uid, createdAt = now, updatedAt = now\<rparr>)\<rparr>
      | Some r \<Rightarrow> d\<lparr>chats := (chats d)(cid \<mapsto> r\<lparr>chat_title := ttl, updatedAt := now\<rparr>)\<rparr>)"

text \<open>\<open>messageList.map((message, index) => ({chatId, role: message.role, parts:
  message.content, order: index}))\<close>, each row with the id the database gives it.\<close>

definition messageValues :: "nat \<Rightarrow> js_string \<Rightarrow> js_string message list \<Rightarrow> message_row list" where
  "messageValues first_id cid messageList =
     map (\<lambda>(message, index).
            \<lparr>row_id = first_id + index, row_chatId = cid, row_role = role message,
             parts = content message, row_order = index\<rparr>)
         (zip messageList [0..<length messageList])"

definition insert_messages :: "message_row list \<Rightarrow> db \<Rightarrow> db" where
  "insert_messages rows d =
     d\<lparr>messages := messages d @ rows, next_row_id := next_row_id d + length rows\<rparr>"

text \<open>\<open>upsertChat\<close>. The result is the outcome (the thrown error, or nothing) and the
  database as the call leaves it.\<close>

definition upsertChat :: "nat \<Rightarrow> upsert_opts \<Rightarrow> db \<Rightarrow> (error + unit) \<times> db" where
  "upsertChat now opts d =
     (let existingChat = select_chat d (chatId opts) in
      if length existingChat > 0 \<and> chat_userId (snd (hd existingChat)) \<noteq> userId opts
      then (Inl ChatNotOwned, d)
      else
        let d1 = (if length existingChat > 0 then delete_messages (chatId opts) d else d);
            d2 = insert_chat now (chatId opts) (title opts) (userId opts) d1;
            d3 = (if length (opt_messages opts) > 0
                  then insert_messages
                         (messageValues (next_row_id d2) (chatId opts) (opt_messages opts)) d2
                  else d2)
        in (Inr (), d3))"



text \<open>The foreign key of \<open>messages.chatId\<close>: every message row belongs to a chat that is
  there.\<close>

definition fk_ok :: "db \<Rightarrow> bool" where
  "fk_ok d = list_all (\<lambda>m. chats d (row_chatId m) \<noteq> None) (messages d)"

text \<open>A history of \<open>upsertChat\<close> calls, each at its time; a call that throws leaves the
  database as it left it.\<close>

fun upsert_history :: "(nat \<times> upsert_opts) list \<Rightarrow> db \<Rightarrow> db" where
  "upsert_history [] d = d"
| "upsert_history ((now, opts) # rest) d = upsert_history rest (snd (upsertChat now opts d))"

section \<open>The chat route handlers (api/chat/route.ts)\<close>

text \<open>\<open>auth()\<close> gives a session or nothing; the handlers read \<open>session.user.id\<close>. The
  body is the parsed JSON of the request.\<close>

record session =
  user_id :: js_string

record body =
  body_messages :: "js_string message list"
  body_chatId :: js_string
  isNewChat :: bool

text \<open>The options that \<open>streamText\<close> is called with, as far as the agent loop reads
  them: the transcript, the step budget and the names of the tools.\<close>

record stream_config =
  cfg_messages :: "js_string message list"
  maxSteps :: nat
  tool_names :: "string list"

datatype response =
  Response js_string nat  \<comment> \<open>\<open>new Response(body, {status})\<close>\<close>
  | DataStreamResponse

text \<open>What a handler does to the world outside, in the order it does it.\<close>

datatype event =
  LangfuseTrace js_string js_string  \<comment> \<open>\<open>langfuse.trace({sessionId, userId})\<close>\<close>
  | SpanStart string
  | SpanEnd string bool
  | UpsertChatCall upsert_opts
  | FindFirstChat js_string
  | WriteData js_string  \<comment> \<open>\<open>NEW_CHAT_CREATED\<close> with the chat id\<close>
  | StreamText stream_config
  | LangfuseFlush

record app =
  app_db :: db
  app_log :: "event list"

definition emit :: "event \<Rightarrow> app \<Rightarrow> app" where
  "emit e s = s\<lparr>app_log := app_log s @ [e]\<rparr>"

text \<open>A call of \<open>upsertChat\<close> from a handler: the call is recorded with its arguments and
  runs on the database.\<close>

definition call_upsertChat :: "nat \<Rightarrow> upsert_opts \<Rightarrow> app \<Rightarrow> (error + unit) \<times> app" where
  "call_upsertChat now opts s =
     (let (r, d) = upsertChat now opts (app_db s)
      in (r, (emit (UpsertChatCall opts) s)\<lparr>app_db := d\<rparr>))"

text \<open>\<open>db.query.chats.findFirst({where: eq(chats.id, chatId)})\<close>\<close>

definition findFirstChat :: "js_string \<Rightarrow> app \<Rightarrow> chat_row option \<times> app" where
  "findFirstChat cid s = (chats (app_db s) cid, emit (FindFirstChat cid) s)"

subsection \<open>The handler with \<open>isNewChat\<close> and the search tool (src/unnamed/part_000)\<close>

definition streamText_options_part_000 :: "js_string message list \<Rightarrow> stream_config" where
  "streamText_options_part_000 msgs =
     \<lparr>cfg_messages = msgs, maxSteps = 10, tool_names = [''searchWeb'']\<rparr>"

text \<open>The \<open>execute\<close> callback of \<open>createDataStreamResponse\<close>.\<close>

definition execute_part_000 :: "body \<Rightarrow> app \<Rightarrow> app" where
  "execute_part_000 b s =
     (let s1 = (if isNewChat b then emit (WriteData (body_chatId b)) s else s)
      in emit (StreamText (streamText_options_part_000 (body_messages b))) s1)"

definition POST_part_000 ::
  "session option \<Rightarrow> body \<Rightarrow> nat \<Rightarrow> app \<Rightarrow> (error + response) \<times> app" where
  "POST_part_000 sess b now s =
     (case sess of
        None \<Rightarrow> (Inr (Response (js ''Unauthorized'') 401), s)
      | Some session \<Rightarrow>
          if length (body_messages b) = 0
          then (Inr (Response (js ''No messages provided'') 400), s)
          else
            let s1 = emit (LangfuseTrace (body_chatId b) (user_id session)) s in
            if isNewChat b then
              (case call_upsertChat now
                      \<lparr>userId = user_id session, chatId = body_chatId b,
                       title = slice0 50 (content (last (body_messages b))) @ js ''...'',
                       opt_messages = body_messages b\<rparr> s1 of
                 (Inl e, s2) \<Rightarrow> (Inl e, s2)
               | (Inr _, s2) \<Rightarrow> (Inr DataStreamResponse, execute_part_000 b s2))
            else
              (case findFirstChat (body_chatId b) s1 of
                 (None, s2) \<Rightarrow> (Inr (Response (js ''Chat not found or unauthorized'') 404), s2)
               | (Some chat, s2) \<Rightarrow>
                   if chat_userId chat \<noteq> user_id session
                   then (Inr (Response (js ''Chat not found or unauthorized'') 404), s2)
                   else (Inr DataStreamResponse, execute_part_000 b s2)))"

text \<open>\<open>onFinish\<close>. \<open>appendResponseMessages\<close> belongs to the \<open>ai\<close> package and is a
  parameter, applied to the inbound messages and the messages of the response.\<close>

definition onFinish_part_000 ::
  "(js_string message list \<Rightarrow> 'r \<Rightarrow> js_string message list) \<Rightarrow> session \<Rightarrow> body \<Rightarrow> 'r \<Rightarrow> nat
     \<Rightarrow> app \<Rightarrow> (error + unit) \<times> app" where
  "onFinish_part_000 appendResponseMessages session b responseMessages now s =
     (let updatedMessages = appendResponseMessages (body_messages b) responseMessages in
      case body_messages b of
        [] \<Rightarrow> (Inr (), s)
      | _ # _ \<Rightarrow>
          let lastMessage = last (body_messages b) in
          (case call_upsertChat now
                  \<lparr>userId = user_id session, chatId = body_chatId b,
                   title = slice0 50 (content lastMessage) @ js ''...'',
                   opt_messages = updatedMessages\<rparr> s of
             (Inl e, s1) \<Rightarrow> (Inl e, s1)
           | (Inr _, s1) \<Rightarrow> (Inr (), emit LangfuseFlush s1)))"

subsection \<open>The handler with spans and both tools (02-day-3-app route.ts)\<close>

definition streamText_options_day3 :: "js_string message list \<Rightarrow> stream_config" where
  "streamText_options_day3 msgs =
     \<lparr>cfg_messages = msgs, maxSteps = 10, tool_names = [''searchWeb'', ''scrapePages'']\<rparr>"

definition execute_day3 :: "body \<Rightarrow> app \<Rightarrow> app" where
  "execute_day3 b s =
     (let s1 = (if isNewChat b then emit (WriteData (body_chatId b)) s else s)
      in emit (StreamText (streamText_options_day3 (body_messages b))) s1)"

definition POST_day3 ::
  "session option \<Rightarrow> body \<Rightarrow> nat \<Rightarrow> app \<Rightarrow> (error + response) \<times> app" where
  "POST_day3 sess b now s =
     (case sess of
        None \<Rightarrow> (Inr (Response (js ''Unauthorized'') 401), s)
      | Some session \<Rightarrow>
          if length (body_messages b) = 0
          then (Inr (Response (js ''No messages provided'') 400), s)
          else
            let s1 = emit (LangfuseTrace (body_chatId b) (user_id session)) s in
            if isNewChat b then
              (let s2 = emit (SpanStart ''create-new-chat'') s1 in
               case call_upsertChat now
                      \<lparr>userId = user_id session, chatId = body_chatId b,
                       title = slice0 50 (content (last (body_messages b))) @ js ''...'',
                       opt_messages = body_messages b\<rparr> s2 of
                 (Inl e, s3) \<Rightarrow> (Inl e, emit (SpanEnd ''create-new-chat'' False) s3)
               | (Inr _, s3) \<Rightarrow>
                   (Inr DataStreamResponse,
                    execute_day3 b (emit (SpanEnd ''create-new-chat'' True) s3)))
            else
              (let s2 = emit (SpanStart ''verify-chat-ownership'') s1 in
               case findFirstChat (body_chatId b) s2 of
                 (None, s3) \<Rightarrow>
                   (Inr (Response (js ''Chat not found or unauthorized'') 404),
                    emit (SpanEnd ''verify-chat-ownership'' False) s3)
               | (Some chat, s3) \<Rightarrow>
                   if chat_userId chat \<noteq> user_id session
                   then (Inr (Response (js ''Chat not found or unauthorized'') 404),
                         emit (SpanEnd ''verify-chat-ownership'' False) s3)
                   else (Inr DataStreamResponse,
                         execute_day3 b (emit (SpanEnd ''verify-chat-ownership'' True) s3))))"

definition onFinish_day3 ::
  "(js_string message list \<Rightarrow> 'r \<Rightarrow> js_string message list) \<Rightarrow> session \<Rightarrow> body \<Rightarrow> 'r \<Rightarrow> nat
     \<Rightarrow> app \<Rightarrow> (error + unit) \<times> app" where
  "onFinish_day3 appendResponseMessages session b responseMessages now s =
     (let updatedMessages = appendResponseMessages (body_messages b) responseMessages in
      case body_messages b of
        [] \<Rightarrow> (Inr (), s)
      | _ # _ \<Rightarrow>
          let lastMessage = last (body_messages b);
              s1 = emit (SpanStart ''save-chat-history'') s in
          (case call_upsertChat now
                  \<lparr>userId = user_id session, chatId = body_chatId b,
                   title = slice0 50 (content lastMessage) @ js ''...'',
                   opt_messages = updatedMessages\<rparr> s1 of
             (Inl e, s2) \<Rightarrow> (Inl e, emit (SpanEnd ''save-chat-history'' False) s2)
           | (Inr _, s2) \<Rightarrow>
               (Inr (), emit LangfuseFlush (emit (SpanEnd ''save-chat-history'' True) s2))))"

subsection \<open>The handler that makes the chat id itself (src/unnamed/part_002)\<close>

text \<open>Here the chat id of the body is optional, and a missing id (or the empty string:
  \<open>!finalChatId\<close>) makes the handler take a fresh one from \<open>crypto.randomUUID()\<close>, which
  is a parameter.\<close>

record body_part_002 =
  messages_part_002 :: "js_string message list"
  chatId_part_002 :: "js_string option"

definition no_chatId :: "body_part_002 \<Rightarrow> bool" where
  "no_chatId b = (case chatId_part_002 b of None \<Rightarrow> True | Some c \<Rightarrow> c = [])"

definition streamText_options_part_002 :: "js_string message list \<Rightarrow> stream_config" where
  "streamText_options_part_002 msgs =
     \<lparr>cfg_messages = msgs, maxSteps = 10, tool_names = [''searchWeb'']\<rparr>"

definition execute_part_002 :: "body_part_002 \<Rightarrow> js_string \<Rightarrow> app \<Rightarrow> app" where
  "execute_part_002 b finalChatId s =
     (let s1 = (if no_chatId b then emit (WriteData finalChatId) s else s)
      in emit (StreamText (streamText_options_part_002 (messages_part_002 b))) s1)"

definition POST_part_002 ::
  "session option \<Rightarrow> body_part_002 \<Rightarrow> js_string \<Rightarrow> nat \<Rightarrow> app \<Rightarrow> (error + response) \<times> app" where
  "POST_part_002 sess b randomUUID now s =
     (case sess of
        None \<Rightarrow> (Inr (Response (js ''Unauthorized'') 401), s)
      | Some session \<Rightarrow>
          (case chatId_part_002 b of
             Some (u # us) \<Rightarrow> (Inr DataStreamResponse, execute_part_002 b (u # us) s)
           | _ \<Rightarrow>
               let finalChatId = randomUUID in
               (case messages_part_002 b of
                  [] \<Rightarrow> (Inr DataStreamResponse, execute_part_002 b finalChatId s)
                | _ # _ \<Rightarrow>
                    let userMessage = last (messages_part_002 b);
                        chatTitle = slice0 100 (content userMessage) @
                                      (if length (content userMessage) > 100 then js ''...''
                                       else [])
                    in (case call_upsertChat now
                               \<lparr>userId = user_id session, chatId = finalChatId,
                                title = chatTitle, opt_messages = messages_part_002 b\<rparr> s of
                          (Inl e, s1) \<Rightarrow> (Inl e, s1)
                        | (Inr _, s1) \<Rightarrow>
                            (Inr DataStreamResponse, execute_part_002 b finalChatId s1)))))"

text \<open>\<open>onFinish\<close> of this handler: a failure of \<open>upsertChat\<close> is caught and logged to the
  console, so the callback itself never fails.\<close>

definition onFinish_part_002 ::
  "(js_string message list \<Rightarrow> 'r \<Rightarrow> js_string message list) \<Rightarrow> session \<Rightarrow> body_part_002
     \<Rightarrow> js_string \<Rightarrow> 'r \<Rightarrow> nat \<Rightarrow> app \<Rightarrow> app" where
  "onFinish_part_002 appendResponseMessages session b finalChatId responseMessages now s =
     (let updatedMessages = appendResponseMessages (messages_part_002 b) responseMessages in
      case messages_part_002 b of
        [] \<Rightarrow> s
      | _ # _ \<Rightarrow>
          let userMessage = last (messages_part_002 b);
              chatTitle = slice0 100 (content userMessage) @
                            (if length (content userMessage) > 100 then js ''...'' else [])
          in snd (call_upsertChat now
                    \<lparr>userId = user_id session, chatId = finalChatId,
                     title = chatTitle, opt_messages = updatedMessages\<rparr> s))"

text \<open>The titles of the \<open>upsertChat\<close> calls in a log, in order.\<close>

fun upsert_titles :: "event list \<Rightarrow> js_string list" where
  "upsert_titles [] = []"
| "upsert_titles (UpsertChatCall opts # es) = title opts # upsert_titles es"
| "upsert_titles (_ # es) = upsert_titles es"

text \<open>The options of the \<open>streamText\<close> calls in a log, in order.\<close>

fun stream_calls :: "event list \<Rightarrow> stream_config list" where
  "stream_calls [] = []"
| "stream_calls (StreamText options # es) = options # stream_calls es"
| "stream_calls (_ # es) = stream_calls es"

section \<open>The tools of the route handlers\<close>

text \<open>A call that goes outside (the search provider, the web, the cache's store, the
  model) takes the world and returns its outcome with the world it leaves. \<open>counted\<close>
  adds a counter of calls to the world of such a call, \<open>uncounted\<close> carries the counter
  along.\<close>

definition counted :: "('w \<Rightarrow> 'r \<times> 'w) \<Rightarrow> nat \<times> 'w \<Rightarrow> 'r \<times> (nat \<times> 'w)" where
  "counted call = (\<lambda>(n, w). case call w of (r, w') \<Rightarrow> (r, (Suc n, w')))"

definition uncounted :: "('w \<Rightarrow> 'r \<times> 'w) \<Rightarrow> nat \<times> 'w \<Rightarrow> 'r \<times> (nat \<times> 'w)" where
  "uncounted call = (\<lambda>(n, w). case call w of (r, w') \<Rightarrow> (r, (n, w')))"

text \<open>\<open>recorded\<close> adds to the world of a call with two arguments the list of the
  arguments it was called with.\<close>

definition recorded ::
  "('a \<Rightarrow> 'b \<Rightarrow> 'w \<Rightarrow> 'r \<times> 'w) \<Rightarrow> 'a \<Rightarrow> 'b \<Rightarrow> ('a \<times> 'b) list \<times> 'w
     \<Rightarrow> 'r \<times> (('a \<times> 'b) list \<times> 'w)" where
  "recorded call x y = (\<lambda>(calls, w). case call x y w of (r, w') \<Rightarrow> (r, (calls @ [(x, y)], w')))"

subsection \<open>\<open>searchWeb\<close>\<close>

text \<open>The request and the response of \<open>searchSerper\<close> (\<open>~/serper\<close>), as the executors
  read them. Whatever else a result or a response holds is the extension of its record.\<close>

record serper_request =
  q :: js_string
  num :: nat

record organic_result =
  r_title :: js_string
  r_link :: js_string
  r_snippet :: js_string
  r_date :: "js_string option"

record 'o serper_response =
  organic :: "'o list"

record search_hit =
  hit_title :: js_string
  hit_link :: js_string
  hit_snippet :: js_string

record dated_search_hit = search_hit +
  hit_date :: "js_string option"

text \<open>The executor of \<open>searchWeb\<close> in src/unnamed/part_000; \<open>searchSerper\<close> and the type of
  the abort signal are parameters.\<close>

definition searchWeb_part_000 ::
  "(serper_request \<Rightarrow> 'sig \<Rightarrow> 'w \<Rightarrow> (error + ('z organic_result_scheme, 'y) serper_response_scheme) \<times> 'w)
     \<Rightarrow> js_string \<Rightarrow> 'sig \<Rightarrow> 'w \<Rightarrow> (error + search_hit list) \<times> 'w" where
  "searchWeb_part_000 searchSerper query abortSignal w =
     (case searchSerper \<lparr>q = query, num = 10\<rparr> abortSignal w of
        (Inl e, w') \<Rightarrow> (Inl e, w')
      | (Inr results, w') \<Rightarrow>
          (Inr (map (\<lambda>result. \<lparr>hit_title = r_title result, hit_link = r_link result,
                                hit_snippet = r_snippet result\<rparr>) (organic results)), w'))"

text \<open>The executor of \<open>searchWeb\<close> in the day-3 route.ts, which also keeps the date.\<close>

definition searchWeb_day3 ::
  "(serper_request \<Rightarrow> 'sig \<Rightarrow> 'w \<Rightarrow> (error + ('z organic_result_scheme, 'y) serper_response_scheme) \<times> 'w)
     \<Rightarrow> js_string \<Rightarrow> 'sig \<Rightarrow> 'w \<Rightarrow> (error + dated_search_hit list) \<times> 'w" where
  "searchWeb_day3 searchSerper query abortSignal w =
     (case searchSerper \<lparr>q = query, num = 10\<rparr> abortSignal w of
        (Inl e, w') \<Rightarrow> (Inl e, w')
      | (Inr results, w') \<Rightarrow>
          (Inr (map (\<lambda>result. \<lparr>hit_title = r_title result, hit_link = r_link result,
                                hit_snippet = r_snippet result, hit_date = r_date result\<rparr>)
                    (organic results)), w'))"

subsection \<open>\<open>scrapePages\<close>\<close>

text \<open>What \<open>bulkCrawlWebsites\<close> (\<open>~/scraper\<close>) returns, as the executor reads it: the flag
  \<open>success\<close> and, per URL, a result that is a success with \<open>data\<close> or a failure with
  \<open>error\<close>. Reading \<open>data\<close> off a failure gives \<open>undefined\<close>, here \<open>None\<close>.\<close>

datatype crawl_response = CrawlSuccess js_string | CrawlError js_string

fun crawl_success :: "crawl_response \<Rightarrow> bool" where
  "crawl_success (CrawlSuccess _) = True"
| "crawl_success (CrawlError _) = False"

fun crawl_data :: "crawl_response \<Rightarrow> js_string option" where
  "crawl_data (CrawlSuccess d) = Some d"
| "crawl_data (CrawlError _) = None"

record bulk_crawl_response =
  success :: bool
  results :: "(js_string \<times> crawl_response) list"

record scraped_page =
  page_url :: js_string
  page_content :: "js_string option"
  page_success :: bool

text \<open>The function that the executor hands to \<open>cacheWithRedis\<close>.\<close>

definition scrapePages_fn ::
  "(js_string list \<Rightarrow> 'w \<Rightarrow> (error + bulk_crawl_response) \<times> 'w)
     \<Rightarrow> js_string list \<Rightarrow> 'w \<Rightarrow> (error + scraped_page list) \<times> 'w" where
  "scrapePages_fn bulkCrawlWebsites urlsToScrape w =
     (case bulkCrawlWebsites urlsToScrape w of
        (Inl e, w') \<Rightarrow> (Inl e, w')
      | (Inr result, w') \<Rightarrow>
          if success result
          then (Inr (map (\<lambda>(url, crawlResult).
                            \<lparr>page_url = url, page_content = crawl_data crawlResult,
                             page_success = True\<rparr>) (results result)), w')
          else (Inr (map (\<lambda>(url, crawlResult).
                            \<lparr>page_url = url,
                             page_content =
                               (case crawlResult of
                                  CrawlSuccess d \<Rightarrow> Some d
                                | CrawlError e \<Rightarrow> Some (js ''Error: '' @ e)),
                             page_success = crawl_success crawlResult\<rparr>) (results result)), w'))"

text \<open>The executor: \<open>cacheWithRedis("scrapePages", fn)\<close> applied to the URLs. The wrapper
  is a parameter; the abort signal is not used.\<close>

definition scrapePages_execute ::
  "(js_string \<Rightarrow> (js_string list \<Rightarrow> 'w \<Rightarrow> (error + scraped_page list) \<times> 'w)
       \<Rightarrow> js_string list \<Rightarrow> 'c \<Rightarrow> (error + scraped_page list) \<times> 'c)
     \<Rightarrow> (js_string list \<Rightarrow> 'w \<Rightarrow> (error + bulk_crawl_response) \<times> 'w)
     \<Rightarrow> js_string list \<Rightarrow> 'sig \<Rightarrow> 'c \<Rightarrow> (error + scraped_page list) \<times> 'c" where
  "scrapePages_execute cacheWithRedis bulkCrawlWebsites urls abortSignal =
     (let scrapePagesWithCache =
            cacheWithRedis (js ''scrapePages'') (scrapePages_fn bulkCrawlWebsites)
      in scrapePagesWithCache urls)"

section \<open>The cache layer\<close>

text \<open>Modelled from the spec: \<open>cacheWithRedis\<close> of \<open>~/server/redis/redis\<close> is not under
  src/; this is the \<open>memoize\<close> of the spec's section 4.1. The key is the hash of the name of
  the operation followed by the serialized arguments; the hash, the serialization and the TTL
  are the policy. An entry holds the value and the time it expires at; the store answers
  \<open>GET\<close> with the value of an entry that has not expired. The store is taken to be
  reachable, and a value to survive its own serialization.\<close>

record 'v cache_entry =
  cached_value :: 'v
  expires_at :: nat

type_synonym 'v cache_store = "js_string \<rightharpoonup> 'v cache_entry"

record 'a cache_policy =
  hash :: "js_string \<Rightarrow> js_string"
  serialized :: "'a \<Rightarrow> js_string"
  ttl :: nat

record ('v, 'w) cached_world =
  clock :: nat
  store :: "'v cache_store"
  outside :: 'w

text \<open>Modelled from the spec: the key of section 4.1, the hash of the name of the operation
  followed by the serialized arguments (the code of the cache layer is not under src/).\<close>

definition cache_key :: "'a cache_policy \<Rightarrow> js_string \<Rightarrow> 'a \<Rightarrow> js_string" where
  "cache_key policy operationName args = hash policy (operationName @ serialized policy args)"

text \<open>Modelled from the spec: \<open>GET key\<close> on the store of section 6; an entry past its expiry
  is gone.\<close>

definition cache_get :: "nat \<Rightarrow> 'v cache_store \<Rightarrow> js_string \<Rightarrow> 'v option" where
  "cache_get now st k =
     (case st k of
        None \<Rightarrow> None
      | Some e \<Rightarrow> if now < expires_at e then Some (cached_value e) else None)"

text \<open>Modelled from the spec: \<open>SET key value EX ttl\<close> on the store of section 6.\<close>

definition cache_set :: "nat \<Rightarrow> nat \<Rightarrow> js_string \<Rightarrow> 'v \<Rightarrow> 'v cache_store \<Rightarrow> 'v cache_store" where
  "cache_set now life k v st = st(k \<mapsto> \<lparr>cached_value = v, expires_at = now + life\<rparr>)"

text \<open>Modelled from the spec: \<open>memoize\<close> of section 4.1, for \<open>cacheWithRedis\<close>, which is
  not under src/. A hit returns the stored value without invoking \<open>fn\<close>; a miss invokes
  \<open>fn\<close>, stores a result under the key with the TTL, and lets an error through without
  storing anything.\<close>

definition memoize ::
  "'a cache_policy \<Rightarrow> js_string \<Rightarrow> ('a \<Rightarrow> 'w \<Rightarrow> (error + 'v) \<times> 'w)
     \<Rightarrow> 'a \<Rightarrow> ('v, 'w) cached_world \<Rightarrow> (error + 'v) \<times> ('v, 'w) cached_world" where
  "memoize policy operationName fn args c =
     (let key = cache_key policy operationName args in
      case cache_get (clock c) (store c) key of
        Some v \<Rightarrow> (Inr v, c)
      | None \<Rightarrow>
          (case fn args (outside c) of
             (Inl e, w') \<Rightarrow> (Inl e, c\<lparr>outside := w'\<rparr>)
           | (Inr v, w') \<Rightarrow>
               (Inr v, c\<lparr>store := cache_set (clock c) (ttl policy) key v (store c),
                         outside := w'\<rparr>)))"

text \<open>Modelled from the spec: \<open>searchSerper\<close> of \<open>~/serper\<close> is not under src/; by section
  4.3 the search call path goes through the cache layer, keyed on the request. \<open>provider\<close>
  is the external search provider.\<close>

definition searchSerper_cached ::
  "serper_request cache_policy \<Rightarrow> (serper_request \<Rightarrow> 'sig \<Rightarrow> 'w \<Rightarrow> (error + 'v) \<times> 'w)
     \<Rightarrow> serper_request \<Rightarrow> 'sig \<Rightarrow> ('v, 'w) cached_world \<Rightarrow> (error + 'v) \<times> ('v, 'w) cached_world" where
  "searchSerper_cached policy provider request abortSignal =
     memoize policy (js ''serper'') (\<lambda>r. provider r abortSignal) request"

section \<open>The bulk extractor\<close>

text \<open>Modelled from the spec: \<open>bulkCrawlWebsites\<close> of \<open>~/scraper\<close> is not under src/; this
  is the \<open>crawlAll\<close> of the spec's section 4.2. One attempt at a URL gives the readable text
  or one of the three failures. A transient failure is tried again, up to \<open>maxRetries\<close>
  times, before the failure is recorded with its message. The pool of \<open>maxConcurrency\<close>
  workers decides when a URL is fetched, not what its outcome is; the batch is put together
  in the order of the input.\<close>

datatype failure = FetchTimeout | FetchError js_string | ExtractionError js_string

record crawler =
  fetch :: "js_string \<Rightarrow> nat \<Rightarrow> nat \<Rightarrow> failure + js_string"
    \<comment> \<open>the URL, the timeout, the number of the attempt\<close>
  transient :: "failure \<Rightarrow> bool"
  describe :: "failure \<Rightarrow> js_string"

text \<open>Modelled from the spec: one URL of section 4.2 (the code of the bulk extractor is not
  under src/): a transient failure is tried again while retries are left.\<close>

fun crawl_url :: "crawler \<Rightarrow> nat \<Rightarrow> js_string \<Rightarrow> nat \<Rightarrow> nat \<Rightarrow> crawl_response" where
  "crawl_url c perUrlTimeout url 0 attempt =
     (case fetch c url perUrlTimeout attempt of
        Inr text \<Rightarrow> CrawlSuccess text
      | Inl f \<Rightarrow> CrawlError (describe c f))"
| "crawl_url c perUrlTimeout url (Suc retriesLeft) attempt =
     (case fetch c url perUrlTimeout attempt of
        Inr text \<Rightarrow> CrawlSuccess text
      | Inl f \<Rightarrow>
          if transient c f then crawl_url c perUrlTimeout url retriesLeft (Suc attempt)
          else CrawlError (describe c f))"

text \<open>Modelled from the spec: \<open>crawlAll\<close> of section 4.2, for \<open>bulkCrawlWebsites\<close>, which
  is not under src/: one outcome per URL in the order of the input, and the conjunction of
  their successes.\<close>

definition crawlAll :: "crawler \<Rightarrow> js_string list \<Rightarrow> nat \<Rightarrow> nat \<Rightarrow> nat \<Rightarrow> bulk_crawl_response" where
  "crawlAll c urls maxConcurrency perUrlTimeout maxRetries =
     (let outcomes = map (\<lambda>url. (url, crawl_url c perUrlTimeout url maxRetries 0)) urls
      in \<lparr>success = list_all (\<lambda>(url, outcome). crawl_success outcome) outcomes,
          results = outcomes\<rparr>)"

section \<open>The agent loop\<close>

text \<open>Modelled from the spec: the loop is run by \<open>streamText\<close> of the \<open>ai\<close> package, whose
  code is not under src/; this is the state machine of the spec's section 4.4. \<open>generate\<close>
  invokes the model on the transcript (the inbound messages and the steps so far) and may
  fail; \<open>dispatch\<close> executes one tool call and always gives a result. A step with tool calls
  advances the index; a step without ends the loop, and so does the index reaching
  \<open>maxSteps\<close>, with the text of the last step as the final text.\<close>

record 'c step_output =
  step_text :: js_string
  toolCalls :: "'c list"

record ('c, 'r) agent_step =
  step_index :: nat
  model_output :: "'c step_output"
  toolResults :: "'r list"

datatype finish_reason = TextOnly | BudgetExhausted

record ('c, 'r) loop_result =
  steps :: "('c, 'r) agent_step list"
  final_text :: "js_string option"
  finish :: finish_reason

text \<open>Modelled from the spec: the dispatch of section 4.4 (the code of the loop is not under
  src/): the tool calls of a step are executed and their results kept in call order.\<close>

fun dispatch_all :: "('c \<Rightarrow> 'w \<Rightarrow> 'r \<times> 'w) \<Rightarrow> 'c list \<Rightarrow> 'w \<Rightarrow> 'r list \<times> 'w" where
  "dispatch_all dispatch [] w = ([], w)"
| "dispatch_all dispatch (call # calls) w =
     (case dispatch call w of
        (r, w1) \<Rightarrow> (case dispatch_all dispatch calls w1 of (rs, w2) \<Rightarrow> (r # rs, w2)))"

text \<open>Modelled from the spec: the last generated text of section 4.4, if any.\<close>

definition last_text :: "('c, 'r) agent_step list \<Rightarrow> js_string option" where
  "last_text sts = (case sts of [] \<Rightarrow> None | _ # _ \<Rightarrow> Some (step_text (model_output (last sts))))"

text \<open>Modelled from the spec: the state machine of section 4.4, for the loop inside
  \<open>streamText\<close>, which is not under src/.\<close>

function agentLoop ::
  "('m list \<times> ('c, 'r) agent_step list \<Rightarrow> 'w \<Rightarrow> (error + 'c step_output) \<times> 'w)
     \<Rightarrow> ('c \<Rightarrow> 'w \<Rightarrow> 'r \<times> 'w) \<Rightarrow> 'm list \<Rightarrow> nat \<Rightarrow> nat \<Rightarrow> ('c, 'r) agent_step list \<Rightarrow> 'w
     \<Rightarrow> (error + ('c, 'r) loop_result) \<times> 'w" where
  "agentLoop generate dispatch transcript budget stepIndex sts w =
     (if budget \<le> stepIndex
      then (Inr \<lparr>steps = sts, final_text = last_text sts, finish = BudgetExhausted\<rparr>, w)
      else
        case generate (transcript, sts) w of
          (Inl e, w1) \<Rightarrow> (Inl e, w1)
        | (Inr out, w1) \<Rightarrow>
            if toolCalls out = []
            then (let sts' = sts @ [\<lparr>step_index = stepIndex, model_output = out,
                                      toolResults = []\<rparr>]
                  in (Inr \<lparr>steps = sts', final_text = last_text sts', finish = TextOnly\<rparr>, w1))
            else
              (case dispatch_all dispatch (toolCalls out) w1 of
                 (rs, w2) \<Rightarrow>
                   agentLoop generate dispatch transcript budget (Suc stepIndex)
                     (sts @ [\<lparr>step_index = stepIndex, model_output = out, toolResults = rs\<rparr>])
                     w2))"
  by pat_completeness auto
termination
  by (relation "measure (\<lambda>(generate, dispatch, transcript, budget, stepIndex, sts, w).
                           budget - stepIndex)") auto

text \<open>Modelled from the spec: \<open>streamText\<close> (of the \<open>ai\<close> package, not under src/) with
  the options of a handler is the loop of section 4.4 from step 0 on the handler's messages,
  with the handler's step budget.\<close>

definition streamText ::
  "(js_string message list \<times> ('c, 'r) agent_step list \<Rightarrow> 'w \<Rightarrow> (error + 'c step_output) \<times> 'w)
     \<Rightarrow> ('c \<Rightarrow> 'w \<Rightarrow> 'r \<times> 'w) \<Rightarrow> stream_config \<Rightarrow> 'w
     \<Rightarrow> (error + ('c, 'r) loop_result) \<times> 'w" where
  "streamText generate dispatch options =
     agentLoop generate dispatch (cfg_messages options) (maxSteps options) 0 []"

section \<open>Example data\<close>

definition alice :: js_string where "alice = js ''alice''"

definition bob :: js_string where "bob = js ''bob''"

definition chat1 :: js_string where "chat1 = js ''c1''"

definition hello_messages :: "js_string message list" where
  "hello_messages =
     [\<lparr>msg_id = js ''m1'', role = User, content = js ''hi''\<rparr>,
      \<lparr>msg_id = js ''m2'', role = Assistant, content = js ''hello''\<rparr>]"

definition alice_opts :: upsert_opts where
  "alice_opts = \<lparr>userId = alice, chatId = chat1, title = js ''hi...'', opt_messages = hello_messages\<rparr>"

definition bob_opts :: upsert_opts where
  "bob_opts = \<lparr>userId = bob, chatId = chat1, title = js ''mine'', opt_messages = []\<rparr>"

definition alice_db :: db where
  "alice_db = snd (upsertChat 1 alice_opts empty_db)"

definition bob_session :: session where
  "bob_session = \<lparr>user_id = bob\<rparr>"

definition alice_app :: app where
  "alice_app = \<lparr>app_db = alice_db, app_log = []\<rparr>"

definition empty_body :: body where
  "empty_body = \<lparr>body_messages = [], body_chatId = chat1, isNewChat = True\<rparr>"

definition hi_body :: body where
  "hi_body = \<lparr>body_messages = [\<lparr>msg_id = js ''m1'', role = User, content = js ''hi''\<rparr>],
              body_chatId = js ''c9'', isNewChat = True\<rparr>"

text \<open>A search provider with two results, the first one dated and with a position that the
  executors do not read.\<close>

definition cat_results :: "(nat organic_result_scheme) serper_response" where
  "cat_results =
     \<lparr>organic =
        [\<lparr>r_title = js ''Cats'', r_link = js ''https://a.example'', r_snippet = js ''About cats'',
          r_date = Some (js ''2024''), \<dots> = 1\<rparr>,
         \<lparr>r_title = js ''Dogs'', r_link = js ''https://b.example'', r_snippet = js ''About dogs'',
          r_date = None, \<dots> = 2\<rparr>]\<rparr>"

definition cat_serper ::
  "serper_request \<Rightarrow> bool \<Rightarrow> unit \<Rightarrow> (error + (nat organic_result_scheme) serper_response) \<times> unit" where
  "cat_serper request abortSignal w =
     (if num request = 10 \<and> abortSignal then (Inr cat_results, w) else (Inl SearchProviderError, w))"

text \<open>A bulk crawl of two pages, the second of which failed.\<close>

definition two_urls :: "js_string list" where
  "two_urls = [js ''https://a.example'', js ''https://b.example'']"

definition mixed_crawl :: "js_string list \<Rightarrow> unit \<Rightarrow> (error + bulk_crawl_response) \<times> unit" where
  "mixed_crawl urls w =
     (Inr \<lparr>success = False,
           results = [(js ''https://a.example'', CrawlSuccess (js ''About cats'')),
                      (js ''https://b.example'', CrawlError (js ''timeout''))]\<rparr>, w)"

text \<open>An operation that rejects while the service is down (the world \<open>False\<close>) and
  otherwise counts its arguments; the policies of two memoized operations; a cache with
  nothing in it.\<close>

definition flaky :: "js_string list \<Rightarrow> bool \<Rightarrow> (error + nat) \<times> bool" where
  "flaky args up = (if up then (Inr (length args), up) else (Inl (FnRejected (js ''down'')), up))"

definition list_policy :: "js_string list cache_policy" where
  "list_policy = \<lparr>hash = (\<lambda>s. s), serialized = concat, ttl = 60\<rparr>"

definition search_policy :: "serper_request cache_policy" where
  "search_policy = \<lparr>hash = (\<lambda>s. s), serialized = (\<lambda>r. q r @ [of_nat (num r)]), ttl = 60\<rparr>"

definition empty_cache :: "nat \<Rightarrow> 'w \<Rightarrow> ('v, 'w) cached_world" where
  "empty_cache now w = \<lparr>clock = now, store = Map.empty, outside = w\<rparr>"

definition cat_hits :: "dated_search_hit list" where
  "cat_hits =
     [\<lparr>hit_title = js ''Cats'', hit_link = js ''https://a.example'',
       hit_snippet = js ''About cats'', hit_date = Some (js ''2024'')\<rparr>,
      \<lparr>hit_title = js ''Dogs'', hit_link = js ''https://b.example'',
       hit_snippet = js ''About dogs'', hit_date = None\<rparr>]"

text \<open>A crawler for which the first page is there, the second times out at every attempt,
  and the third is there at the second attempt.\<close>

definition example_crawler :: crawler where
  "example_crawler =
     \<lparr>fetch = (\<lambda>url timeout attempt.
                 if url = js ''https://a.example'' then Inr (js ''About cats'')
                 else if url = js ''https://b.example'' then Inl FetchTimeout
                 else if attempt = 0 then Inl (FetchError (js ''503''))
                 else Inr (js ''About birds'')),
      transient = (\<lambda>f. case f of ExtractionError _ \<Rightarrow> False | _ \<Rightarrow> True),
      describe = (\<lambda>f. case f of FetchTimeout \<Rightarrow> js ''timeout''
                          | FetchError m \<Rightarrow> js ''fetch: '' @ m
                          | ExtractionError m \<Rightarrow> js ''extract: '' @ m)\<rparr>"

text \<open>A model that asks for one more tool call at every step, and a tool that echoes its
  argument.\<close>

definition hungry_model ::
  "js_string message list \<times> (nat, nat) agent_step list \<Rightarrow> unit \<Rightarrow> (error + nat step_output) \<times> unit" where
  "hungry_model t w = (Inr \<lparr>step_text = js ''searching'', toolCalls = [length (snd t)]\<rparr>, w)"

definition echo_tool :: "nat \<Rightarrow> unit \<Rightarrow> nat \<times> unit" where
  "echo_tool call w = (call, w)"

definition empty_body_part_002 :: body_part_002 where
  "empty_body_part_002 = \<lparr>messages_part_002 = [], chatId_part_002 = None\<rparr>"

section \<open>The conversation store: what a call leaves\<close>

lemma select_chat_None: "chats d cid = None \<Longrightarrow> select_chat d cid = []"
  by (simp add: select_chat_def)

lemma select_chat_Some: "chats d cid = Some r \<Longrightarrow> select_chat d cid = [(cid, r)]"
  by (simp add: select_chat_def)

lemma upsertChat_new:
  assumes "chats d (chatId opts) = None"
  shows "upsertChat now opts d =
    (Inr (),
     let d2 = insert_chat now (chatId opts) (title opts) (userId opts) d
     in if opt_messages opts = [] then d2
        else insert_messages (messageValues (next_row_id d2) (chatId opts) (opt_messages opts)) d2)"
  using assms by (simp add: upsertChat_def select_chat_None Let_def)

lemma upsertChat_own:
  assumes "chats d (chatId opts) = Some r" "chat_userId r = userId opts"
  shows "upsertChat now opts d =
    (Inr (),
     let d2 = insert_chat now (chatId opts) (title opts) (userId opts)
                (delete_messages (chatId opts) d)
     in if opt_messages opts = [] then d2
        else insert_messages (messageValues (next_row_id d2) (chatId opts) (opt_messages opts)) d2)"
  using assms by (simp add: upsertChat_def select_chat_Some Let_def)

lemma upsertChat_other:
  assumes "chats d (chatId opts) = Some r" "chat_userId r \<noteq> userId opts"
  shows "upsertChat now opts d = (Inl ChatNotOwned, d)"
  using assms by (simp add: upsertChat_def select_chat_Some Let_def)

lemma chats_insert_messages [simp]: "chats (insert_messages rows d) = chats d"
  by (simp add: insert_messages_def)

lemma chats_delete_messages [simp]: "chats (delete_messages cid d) = chats d"
  by (simp add: delete_messages_def)

lemma messages_insert_chat [simp]: "messages (insert_chat now cid t uid d) = messages d"
  by (simp add: insert_chat_def split: option.splits)

lemma next_row_id_insert_chat [simp]: "next_row_id (insert_chat now cid t uid d) = next_row_id d"
  by (simp add: insert_chat_def split: option.splits)

lemma messages_insert_messages [simp]: "messages (insert_messages rows d) = messages d @ rows"
  by (simp add: insert_messages_def)

lemma messages_delete_messages [simp]:
  "messages (delete_messages cid d) = filter (\<lambda>m. row_chatId m \<noteq> cid) (messages d)"
  by (simp add: delete_messages_def)

lemma chats_insert_chat_other: "c \<noteq> cid \<Longrightarrow> chats (insert_chat now cid t uid d) c = chats d c"
  by (simp add: insert_chat_def split: option.splits)

lemma chats_insert_chat_same:
  "chats (insert_chat now cid t uid d) cid =
     Some (case chats d cid of
             None \<Rightarrow> \<lparr>chat_title = t, chat_userId = uid, createdAt = now, updatedAt = now\<rparr>
           | Some r \<Rightarrow> r\<lparr>chat_title := t, updatedAt := now\<rparr>)"
  by (simp add: insert_chat_def split: option.splits)

text \<open>The chats table after a call, in every case.\<close>

lemma chats_upsertChat:
  "chats (snd (upsertChat now opts d)) =
     (case chats d (chatId opts) of
        None \<Rightarrow> (chats d)(chatId opts \<mapsto>
           \<lparr>chat_title = title opts, chat_userId = userId opts, createdAt = now, updatedAt = now\<rparr>)
      | Some r \<Rightarrow> if chat_userId r \<noteq> userId opts then chats d
                  else (chats d)(chatId opts \<mapsto> r\<lparr>chat_title := title opts, updatedAt := now\<rparr>))"
proof (cases "chats d (chatId opts)")
  case None
  then show ?thesis
    by (simp add: upsertChat_new Let_def insert_chat_def)
next
  case (Some r)
  show ?thesis
  proof (cases "chat_userId r = userId opts")
    case True
    with Some show ?thesis
      by (simp add: upsertChat_own Let_def insert_chat_def)
  next
    case False
    with Some show ?thesis
      by (simp add: upsertChat_other)
  qed
qed

lemma owner_kept:
  assumes "chats d c = Some r"
  shows "\<exists>r'. chats (snd (upsertChat now opts d)) c = Some r' \<and> chat_userId r' = chat_userId r"
  using assms by (auto simp: chats_upsertChat split: option.splits)

lemma owner_kept_history:
  assumes "chats d c = Some r"
  shows "\<exists>r'. chats (upsert_history h d) c = Some r' \<and> chat_userId r' = chat_userId r"
  using assms
proof (induction h arbitrary: d r)
  case Nil
  then show ?case by simp
next
  case (Cons a h)
  obtain now opts where a: "a = (now, opts)" by (cases a)
  from owner_kept [OF Cons.prems, of now opts]
  obtain r1 where r1: "chats (snd (upsertChat now opts d)) c = Some r1"
    and u: "chat_userId r1 = chat_userId r" by blast
  from Cons.IH [OF r1] u show ?case by (simp add: a)
qed




lemma length_messageValues [simp]: "length (messageValues n cid ms) = length ms"
  by (simp add: messageValues_def)


lemma messageValues_chatId:
  "list_all (\<lambda>m. row_chatId m = cid) (messageValues n cid ms)"
  by (simp add: messageValues_def list_all_iff split_beta)

lemma in_messageValues_chatId: "m \<in> set (messageValues n cid ms) \<Longrightarrow> row_chatId m = cid"
  using messageValues_chatId [of cid n ms] by (simp add: list_all_iff)




lemma messageValues_Nil [simp]: "messageValues n cid [] = []"
  by (simp add: messageValues_def)





lemma fk_ok_empty: "fk_ok empty_db"
  by (simp add: fk_ok_def empty_db_def)

lemma fk_ok_upsertChat:
  assumes "fk_ok d"
  shows "fk_ok (snd (upsertChat now opts d))"
proof (cases "chats d (chatId opts)")
  case None
  with assms show ?thesis
    by (auto simp: upsertChat_new Let_def fk_ok_def list_all_iff insert_chat_def
          dest: in_messageValues_chatId)
next
  case (Some r)
  show ?thesis
  proof (cases "chat_userId r = userId opts")
    case True
    with Some assms show ?thesis
      by (auto simp: upsertChat_own Let_def fk_ok_def list_all_iff insert_chat_def
            dest: in_messageValues_chatId)
  next
    case False
    with Some assms show ?thesis by (simp add: upsertChat_other)
  qed
qed

lemma fk_ok_history: "fk_ok d \<Longrightarrow> fk_ok (upsert_history h d)"
  by (induction h arbitrary: d) (auto simp: fk_ok_upsertChat)

section \<open>The conversation store: ownership and reading back\<close>

lemma example_strings [simp]:
  "alice \<noteq> bob" "bob \<noteq> alice"
  by (simp_all add: alice_def bob_def js_def)

lemma alice_db_eq:
  "alice_db = \<lparr>chats = [chat1 \<mapsto> \<lparr>chat_title = js ''hi...'', chat_userId = alice,
                                     createdAt = 1, updatedAt = 1\<rparr>],
               messages = [\<lparr>row_id = 0, row_chatId = chat1, row_role = User,
                             parts = js ''hi'', row_order = 0\<rparr>,
                           \<lparr>row_id = 1, row_chatId = chat1, row_role = Assistant,
                             parts = js ''hello'', row_order = 1\<rparr>],
               next_row_id = 2\<rparr>"
  by (simp add: alice_db_def upsertChat_def alice_opts_def empty_db_def select_chat_def
      insert_chat_def insert_messages_def messageValues_def hello_messages_def Let_def upt_rec)

text \<open>
  C5: when the chat is there and belongs to another user, \<open>upsertChat\<close> throws and leaves
  the database as it was: the check comes before any deletion or insertion. Whatever
  \<open>upsertChat\<close> calls follow, the chat keeps its owner.
\<close>

theorem upsertChat_rejects_other_user:
  assumes "chats d (chatId opts) = Some r" and "chat_userId r \<noteq> userId opts"
  shows "upsertChat now opts d = (Inl ChatNotOwned, d)
       \<and> (\<exists>r'. chats (upsert_history h d) (chatId opts) = Some r'
                \<and> chat_userId r' = chat_userId r)"
  using assms upsertChat_other owner_kept_history by blast

text \<open>Bob's call on Alice's chat is rejected; after it and a later call of Alice's the
  chat is still Alice's.\<close>

theorem upsertChat_rejects_other_user_witness:
  "chats alice_db (chatId bob_opts) =
      Some \<lparr>chat_title = js ''hi...'', chat_userId = alice, createdAt = 1, updatedAt = 1\<rparr>
   \<and> alice \<noteq> userId bob_opts
   \<and> upsertChat 2 bob_opts alice_db = (Inl ChatNotOwned, alice_db)
   \<and> (\<exists>r'. chats (upsert_history [(2, bob_opts), (3, alice_opts)] alice_db) (chatId bob_opts)
              = Some r' \<and> chat_userId r' = alice)"
proof -
  let ?r = "\<lparr>chat_title = js ''hi...'', chat_userId = alice, createdAt = 1, updatedAt = 1\<rparr>"
  have h1: "chats alice_db (chatId bob_opts) = Some ?r"
    by (simp add: alice_db_eq bob_opts_def)
  have h2: "chat_userId ?r \<noteq> userId bob_opts"
    by (simp add: bob_opts_def)
  note t = upsertChat_rejects_other_user [OF h1 h2, of 2 "[(2, bob_opts), (3, alice_opts)]"]
  from t have c1: "upsertChat 2 bob_opts alice_db = (Inl ChatNotOwned, alice_db)"
    by (rule conjunct1)
  from t have "\<exists>r'. chats (upsert_history [(2, bob_opts), (3, alice_opts)] alice_db)
                       (chatId bob_opts) = Some r' \<and> chat_userId r' = chat_userId ?r"
    by (rule conjunct2)
  then have c2: "\<exists>r'. chats (upsert_history [(2, bob_opts), (3, alice_opts)] alice_db)
                       (chatId bob_opts) = Some r' \<and> chat_userId r' = alice"
    by (simp only: chat_row.simps)
  have h2': "alice \<noteq> userId bob_opts" by (simp add: bob_opts_def)
  from h1 h2' c1 c2 show ?thesis by blast
qed



section \<open>The route handlers: what a request does\<close>

lemma upsert_titles_append: "upsert_titles (xs @ ys) = upsert_titles xs @ upsert_titles ys"
  by (induction xs rule: upsert_titles.induct) simp_all

lemma app_log_emit [simp]: "app_log (emit e s) = app_log s @ [e]"
  by (simp add: emit_def)

lemma app_db_emit [simp]: "app_db (emit e s) = app_db s"
  by (simp add: emit_def)

lemma call_upsertChat_log:
  "call_upsertChat now opts s = (r, s') \<Longrightarrow> app_log s' = app_log s @ [UpsertChatCall opts]"
  by (auto simp: call_upsertChat_def split: prod.splits)

lemma findFirstChat_log:
  "findFirstChat cid s = (r, s') \<Longrightarrow> app_log s' = app_log s @ [FindFirstChat cid]"
  by (auto simp: findFirstChat_def)

lemma app_log_execute_part_000:
  "upsert_titles (app_log (execute_part_000 b s)) = upsert_titles (app_log s)"
  by (simp add: execute_part_000_def Let_def upsert_titles_append)

lemma app_log_execute_day3:
  "upsert_titles (app_log (execute_day3 b s)) = upsert_titles (app_log s)"
  by (simp add: execute_day3_def Let_def upsert_titles_append)

lemma POST_part_000_empty:
  "body_messages b = [] \<Longrightarrow>
     POST_part_000 (Some sess) b now s = (Inr (Response (js ''No messages provided'') 400), s)"
  by (simp add: POST_part_000_def)

lemma POST_day3_empty:
  "body_messages b = [] \<Longrightarrow>
     POST_day3 (Some sess) b now s = (Inr (Response (js ''No messages provided'') 400), s)"
  by (simp add: POST_day3_def)

lemma POST_part_000_titles:
  "upsert_titles (app_log (snd (POST_part_000 (Some sess) b now s))) =
     upsert_titles (app_log s) @
       (if body_messages b \<noteq> [] \<and> isNewChat b
        then [take 50 (content (last (body_messages b))) @ js ''...''] else [])"
  by (auto simp: POST_part_000_def Let_def slice0_def upsert_titles_append
        app_log_execute_part_000
        dest!: call_upsertChat_log findFirstChat_log
        split: prod.splits sum.splits option.splits)

lemma POST_day3_titles:
  "upsert_titles (app_log (snd (POST_day3 (Some sess) b now s))) =
     upsert_titles (app_log s) @
       (if body_messages b \<noteq> [] \<and> isNewChat b
        then [take 50 (content (last (body_messages b))) @ js ''...''] else [])"
  by (auto simp: POST_day3_def Let_def slice0_def upsert_titles_append
        app_log_execute_day3
        dest!: call_upsertChat_log findFirstChat_log
        split: prod.splits sum.splits option.splits)

lemma onFinish_part_000_titles:
  "upsert_titles (app_log (snd (onFinish_part_000 app sess b resp now s))) =
     upsert_titles (app_log s) @
       (if body_messages b \<noteq> []
        then [take 50 (content (last (body_messages b))) @ js ''...''] else [])"
  by (auto simp: onFinish_part_000_def Let_def slice0_def upsert_titles_append
        dest!: call_upsertChat_log
        split: prod.splits sum.splits list.splits)

lemma onFinish_day3_titles:
  "upsert_titles (app_log (snd (onFinish_day3 app sess b resp now s))) =
     upsert_titles (app_log s) @
       (if body_messages b \<noteq> []
        then [take 50 (content (last (body_messages b))) @ js ''...''] else [])"
  by (auto simp: onFinish_day3_def Let_def slice0_def upsert_titles_append
        dest!: call_upsertChat_log
        split: prod.splits sum.splits list.splits)

text \<open>
  C9: a request with a session and an empty \<open>messages\<close> array is answered with status 400
  and the body \<open>No messages provided\<close>, by the handler of part_000 and by the one of the
  day-3 route.ts alike. The database and the log are as they were: no chat was created or
  looked up, no trace was opened and \<open>streamText\<close> was not called.
\<close>

theorem POST_empty_messages_400:
  assumes "body_messages b = []"
  shows "POST_part_000 (Some sess) b now s = (Inr (Response (js ''No messages provided'') 400), s)
       \<and> POST_day3 (Some sess) b now s = (Inr (Response (js ''No messages provided'') 400), s)"
  using assms by (simp add: POST_part_000_empty POST_day3_empty)

text \<open>Bob posts no messages to a database that holds Alice's chat.\<close>

theorem POST_empty_messages_400_witness:
  "body_messages empty_body = []
   \<and> POST_part_000 (Some bob_session) empty_body 7 alice_app
        = (Inr (Response (js ''No messages provided'') 400), alice_app)
   \<and> POST_day3 (Some bob_session) empty_body 7 alice_app
        = (Inr (Response (js ''No messages provided'') 400), alice_app)"
proof -
  have h: "body_messages empty_body = []" by (simp add: empty_body_def)
  from POST_empty_messages_400 [OF h, of bob_session 7 alice_app] h show ?thesis by blast
qed

text \<open>
  C10: in the two handlers, the titles of the \<open>upsertChat\<close> calls that a request adds to the
  log are: from \<open>POST\<close>, one title when the messages are not empty and the chat is new, and
  none otherwise; from \<open>onFinish\<close>, one title when the messages are not empty. The title is
  the first 50 code units of the content of the last inbound message followed by \<open>...\<close>;
  when the content has 50 code units or fewer, it is the whole content followed by \<open>...\<close>.
\<close>

theorem upsertChat_title_of_handlers:
  "(let lastContent = content (last (body_messages b));
        expected = take 50 lastContent @ js ''...'';
        created = (if body_messages b \<noteq> [] \<and> isNewChat b then [expected] else []);
        saved = (if body_messages b \<noteq> [] then [expected] else [])
    in upsert_titles (app_log (snd (POST_part_000 (Some sess) b now s)))
         = upsert_titles (app_log s) @ created
     \<and> upsert_titles (app_log (snd (POST_day3 (Some sess) b now s)))
         = upsert_titles (app_log s) @ created
     \<and> upsert_titles (app_log (snd (onFinish_part_000 appendResponseMessages sess b resp now s)))
         = upsert_titles (app_log s) @ saved
     \<and> upsert_titles (app_log (snd (onFinish_day3 appendResponseMessages sess b resp now s)))
         = upsert_titles (app_log s) @ saved
     \<and> (length lastContent \<le> 50 \<longrightarrow> expected = lastContent @ js ''...''))"
  unfolding Let_def
  by (simp only: POST_part_000_titles POST_day3_titles onFinish_part_000_titles
        onFinish_day3_titles) simp

text \<open>The two-unit content \<open>hi\<close> gives the title \<open>hi...\<close> in all four places.\<close>

theorem upsertChat_title_of_handlers_witness:
  "length (content (last (body_messages hi_body))) \<le> 50
   \<and> upsert_titles (app_log (snd (POST_part_000 (Some bob_session) hi_body 7 alice_app)))
        = [js ''hi...'']
   \<and> upsert_titles (app_log (snd (POST_day3 (Some bob_session) hi_body 7 alice_app)))
        = [js ''hi...'']
   \<and> upsert_titles (app_log (snd (onFinish_part_000 (\<lambda>ms r. ms @ r) bob_session hi_body
                                     [] 7 alice_app)))
        = [js ''hi...'']
   \<and> upsert_titles (app_log (snd (onFinish_day3 (\<lambda>ms r. ms @ r) bob_session hi_body
                                     [] 7 alice_app)))
        = [js ''hi...'']"
  using upsertChat_title_of_handlers [where b = hi_body and sess = bob_session and now = 7
      and s = alice_app and appendResponseMessages = "\<lambda>ms r. ms @ r" and resp = "[]"]
  by (simp add: Let_def hi_body_def alice_app_def js_def)

section \<open>The handler of part_002\<close>

lemma POST_part_002_with_id:
  "chatId_part_002 b = Some (u # us) \<Longrightarrow>
     POST_part_002 (Some sess) b randomUUID now s =
       (Inr DataStreamResponse, execute_part_002 b (u # us) s)"
  by (simp add: POST_part_002_def)

lemma POST_part_002_no_id_empty:
  "no_chatId b \<Longrightarrow> messages_part_002 b = [] \<Longrightarrow>
     POST_part_002 (Some sess) b randomUUID now s =
       (Inr DataStreamResponse, execute_part_002 b randomUUID s)"
  by (simp add: POST_part_002_def no_chatId_def split: option.splits list.splits)

lemma POST_part_002_no_id_messages:
  assumes "no_chatId b" "messages_part_002 b \<noteq> []"
  shows "POST_part_002 (Some sess) b randomUUID now s =
     (case call_upsertChat now
             \<lparr>userId = user_id sess, chatId = randomUUID,
              title = take 100 (content (last (messages_part_002 b))) @
                        (if 100 < length (content (last (messages_part_002 b)))
                         then js ''...'' else []),
              opt_messages = messages_part_002 b\<rparr> s of
        (Inl e, s1) \<Rightarrow> (Inl e, s1)
      | (Inr x, s1) \<Rightarrow> (Inr DataStreamResponse, execute_part_002 b randomUUID s1))"
proof -
  from assms(2) obtain m ms where ms: "messages_part_002 b = m # ms"
    by (cases "messages_part_002 b") auto
  from assms(1) have "chatId_part_002 b = None \<or> chatId_part_002 b = Some []"
    by (simp add: no_chatId_def split: option.splits)
  then show ?thesis
    by (auto simp: POST_part_002_def ms Let_def slice0_def)
qed

lemma titles_execute_part_002:
  "upsert_titles (app_log (execute_part_002 b c s)) = upsert_titles (app_log s)"
  by (simp add: execute_part_002_def Let_def upsert_titles_append)

lemma log_execute_part_002:
  "execute_part_002 b c s =
     s\<lparr>app_log := app_log s @ (if no_chatId b then [WriteData c] else [])
                      @ [StreamText (streamText_options_part_002 (messages_part_002 b))]\<rparr>"
  by (simp add: execute_part_002_def Let_def emit_def)

text \<open>
  The handler of part_002 has no check for an empty \<open>messages\<close> array: such a
  request, with a session, gets the data stream response; no chat is created, and
  \<open>streamText\<close> is called on the empty list of messages.
\<close>

theorem POST_part_002_empty_messages_streams:
  assumes "messages_part_002 b = []"
  shows "POST_part_002 (Some sess) b randomUUID now s =
           (Inr DataStreamResponse,
            s\<lparr>app_log := app_log s @ (if no_chatId b then [WriteData randomUUID] else [])
                             @ [StreamText \<lparr>cfg_messages = [], maxSteps = 10,
                                             tool_names = [''searchWeb'']\<rparr>]\<rparr>)"
proof (cases "no_chatId b")
  case True
  with assms show ?thesis
    by (simp add: POST_part_002_no_id_empty log_execute_part_002 streamText_options_part_002_def)
next
  case False
  then obtain u us where "chatId_part_002 b = Some (u # us)"
    by (auto simp: no_chatId_def neq_Nil_conv split: option.splits)
  with assms False show ?thesis
    by (simp add: POST_part_002_with_id log_execute_part_002 streamText_options_part_002_def)
qed

text \<open>Bob posts no messages and no chat id.\<close>

theorem POST_part_002_empty_messages_streams_witness:
  "messages_part_002 empty_body_part_002 = []
   \<and> POST_part_002 (Some bob_session) empty_body_part_002 (js ''uuid-1'') 7 alice_app =
       (Inr DataStreamResponse,
        alice_app\<lparr>app_log := [WriteData (js ''uuid-1''),
                               StreamText \<lparr>cfg_messages = [], maxSteps = 10,
                                           tool_names = [''searchWeb'']\<rparr>]\<rparr>)"
proof -
  have h: "messages_part_002 empty_body_part_002 = []" by (simp add: empty_body_part_002_def)
  have n: "no_chatId empty_body_part_002" by (simp add: no_chatId_def empty_body_part_002_def)
  have l: "app_log alice_app = []" by (simp add: alice_app_def)
  from POST_part_002_empty_messages_streams [OF h, of bob_session "js ''uuid-1''" 7 alice_app]
  have "POST_part_002 (Some bob_session) empty_body_part_002 (js ''uuid-1'') 7 alice_app =
       (Inr DataStreamResponse,
        alice_app\<lparr>app_log := [WriteData (js ''uuid-1''),
                               StreamText \<lparr>cfg_messages = [], maxSteps = 10,
                                           tool_names = [''searchWeb'']\<rparr>]\<rparr>)"
    by (simp add: n l)
  with h show ?thesis by blast
qed

lemma POST_part_002_titles:
  "upsert_titles (app_log (snd (POST_part_002 (Some sess) b randomUUID now s)))
     = upsert_titles (app_log s)
         @ (if no_chatId b \<and> messages_part_002 b \<noteq> []
            then [take 100 (content (last (messages_part_002 b))) @
                    (if 100 < length (content (last (messages_part_002 b)))
                     then js ''...'' else [])]
            else [])"
proof (cases "no_chatId b")
  case False
  then obtain u us where "chatId_part_002 b = Some (u # us)"
    by (auto simp: no_chatId_def neq_Nil_conv split: option.splits)
  with False show ?thesis
    by (simp add: POST_part_002_with_id titles_execute_part_002)
next
  case True
  show ?thesis
  proof (cases "messages_part_002 b = []")
    case True
    with \<open>no_chatId b\<close> show ?thesis
      by (simp add: POST_part_002_no_id_empty titles_execute_part_002)
  next
    case False
    let ?opts = "\<lparr>userId = user_id sess, chatId = randomUUID,
              title = take 100 (content (last (messages_part_002 b))) @
                        (if 100 < length (content (last (messages_part_002 b)))
                         then js ''...'' else []),
              opt_messages = messages_part_002 b\<rparr>"
    obtain r s1 where c: "call_upsertChat now ?opts s = (r, s1)"
      by (cases "call_upsertChat now ?opts s")
    from call_upsertChat_log [OF c]
    have l: "upsert_titles (app_log s1) = upsert_titles (app_log s) @ [title ?opts]"
      by (simp add: upsert_titles_append)
    from True False c l show ?thesis
      by (cases r) (simp_all add: POST_part_002_no_id_messages titles_execute_part_002)
  qed
qed

lemma onFinish_part_002_titles:
  "upsert_titles (app_log (onFinish_part_002 appendResponseMessages sess b finalChatId resp now s))
     = upsert_titles (app_log s)
         @ (if messages_part_002 b \<noteq> []
            then [take 100 (content (last (messages_part_002 b))) @
                    (if 100 < length (content (last (messages_part_002 b)))
                     then js ''...'' else [])]
            else [])"
proof (cases "messages_part_002 b")
  case Nil
  then show ?thesis by (simp add: onFinish_part_002_def)
next
  case (Cons m ms)
  let ?opts = "\<lparr>userId = user_id sess, chatId = finalChatId,
              title = take 100 (content (last (messages_part_002 b))) @
                        (if 100 < length (content (last (messages_part_002 b)))
                         then js ''...'' else []),
              opt_messages = appendResponseMessages (messages_part_002 b) resp\<rparr>"
  obtain r s1 where c: "call_upsertChat now ?opts s = (r, s1)"
    by (cases "call_upsertChat now ?opts s")
  from call_upsertChat_log [OF c]
  have l: "upsert_titles (app_log s1) = upsert_titles (app_log s) @ [title ?opts]"
    by (simp add: upsert_titles_append)
  have "onFinish_part_002 appendResponseMessages sess b finalChatId resp now s = s1"
    using c Cons by (simp add: onFinish_part_002_def Let_def slice0_def)
  with l Cons show ?thesis by simp
qed

text \<open>
  In the handler of part_002 the title of a chat is the first 100 code units of the
  content of the last inbound message, followed by \<open>...\<close> only when the content is longer
  than 100.
\<close>

theorem upsertChat_title_of_part_002:
  "(let lastContent = content (last (messages_part_002 b));
        expected = take 100 lastContent @ (if 100 < length lastContent then js ''...'' else [])
    in upsert_titles (app_log (snd (POST_part_002 (Some sess) b randomUUID now s)))
         = upsert_titles (app_log s)
             @ (if no_chatId b \<and> messages_part_002 b \<noteq> [] then [expected] else [])
     \<and> upsert_titles (app_log (onFinish_part_002 appendResponseMessages sess b finalChatId
                                  resp now s))
         = upsert_titles (app_log s) @ (if messages_part_002 b \<noteq> [] then [expected] else []))"
  unfolding Let_def
  by (simp add: POST_part_002_titles onFinish_part_002_titles)

section \<open>The tools: what the executors return\<close>

lemma searchWeb_day3_ok:
  assumes "searchSerper \<lparr>q = query, num = 10\<rparr> abortSignal w = (Inr res, w')"
  shows "searchWeb_day3 searchSerper query abortSignal w =
     (Inr (map (\<lambda>r. \<lparr>hit_title = r_title r, hit_link = r_link r, hit_snippet = r_snippet r,
                        hit_date = r_date r\<rparr>) (organic res)), w')"
  using assms by (simp add: searchWeb_day3_def)

lemma searchWeb_day3_error:
  assumes "searchSerper \<lparr>q = query, num = 10\<rparr> abortSignal w = (Inl e, w')"
  shows "searchWeb_day3 searchSerper query abortSignal w = (Inl e, w')"
  using assms by (simp add: searchWeb_day3_def)

lemma searchWeb_part_000_ok:
  assumes "searchSerper \<lparr>q = query, num = 10\<rparr> abortSignal w = (Inr res, w')"
  shows "searchWeb_part_000 searchSerper query abortSignal w =
     (Inr (map (\<lambda>r. \<lparr>hit_title = r_title r, hit_link = r_link r, hit_snippet = r_snippet r\<rparr>)
               (organic res)), w')"
  using assms by (simp add: searchWeb_part_000_def)

lemma searchWeb_part_000_error:
  assumes "searchSerper \<lparr>q = query, num = 10\<rparr> abortSignal w = (Inl e, w')"
  shows "searchWeb_part_000 searchSerper query abortSignal w = (Inl e, w')"
  using assms by (simp add: searchWeb_part_000_def)

lemma searchWeb_day3_recorded:
  "snd (searchWeb_day3 (recorded searchSerper) query abortSignal (calls, w)) =
     (calls @ [(\<lparr>q = query, num = 10\<rparr>, abortSignal)],
      snd (searchSerper \<lparr>q = query, num = 10\<rparr> abortSignal w))"
  by (simp add: searchWeb_day3_def recorded_def split: prod.splits sum.splits)

lemma searchWeb_part_000_recorded:
  "snd (searchWeb_part_000 (recorded searchSerper) query abortSignal (calls, w)) =
     (calls @ [(\<lparr>q = query, num = 10\<rparr>, abortSignal)],
      snd (searchSerper \<lparr>q = query, num = 10\<rparr> abortSignal w))"
  by (simp add: searchWeb_part_000_def recorded_def split: prod.splits sum.splits)

text \<open>
  C7: the executor of \<open>searchWeb\<close>, in the day-3 route.ts and in part_000, calls
  \<open>searchSerper\<close> once, with the query, the count 10 and the abort signal it was given
  (the list of recorded calls grows by exactly that call). An error of the provider is
  passed on. Otherwise the result is the list of the provider's organic results in their
  order, each reduced to its title, link and snippet and, in the day-3 route.ts, its date.
\<close>

theorem searchWeb_calls_serper_with_10:
  assumes "searchSerper \<lparr>q = query, num = 10\<rparr> abortSignal w = (outcome, w')"
  shows "snd (searchWeb_day3 (recorded searchSerper) query abortSignal (calls, w))
           = (calls @ [(\<lparr>q = query, num = 10\<rparr>, abortSignal)], w')
       \<and> snd (searchWeb_part_000 (recorded searchSerper) query abortSignal (calls, w))
           = (calls @ [(\<lparr>q = query, num = 10\<rparr>, abortSignal)], w')
       \<and> (case outcome of
            Inl e \<Rightarrow>
              searchWeb_day3 searchSerper query abortSignal w = (Inl e, w')
              \<and> searchWeb_part_000 searchSerper query abortSignal w = (Inl e, w')
          | Inr res \<Rightarrow>
              searchWeb_day3 searchSerper query abortSignal w =
                (Inr (map (\<lambda>r. \<lparr>hit_title = r_title r, hit_link = r_link r,
                                   hit_snippet = r_snippet r, hit_date = r_date r\<rparr>)
                          (organic res)), w')
              \<and> searchWeb_part_000 searchSerper query abortSignal w =
                (Inr (map (\<lambda>r. \<lparr>hit_title = r_title r, hit_link = r_link r,
                                   hit_snippet = r_snippet r\<rparr>)
                          (organic res)), w'))"
proof (cases outcome)
  case (Inl e)
  with assms show ?thesis
    by (simp add: searchWeb_day3_error searchWeb_part_000_error
          searchWeb_day3_recorded searchWeb_part_000_recorded)
next
  case (Inr res)
  with assms show ?thesis
    by (simp add: searchWeb_day3_ok searchWeb_part_000_ok
          searchWeb_day3_recorded searchWeb_part_000_recorded)
qed

text \<open>A provider that answers only a request for 10 results with the signal it expects.\<close>

theorem searchWeb_calls_serper_with_10_witness:
  "cat_serper \<lparr>q = js ''cats'', num = 10\<rparr> True () = (Inr cat_results, ())
   \<and> snd (searchWeb_day3 (recorded cat_serper) (js ''cats'') True ([], ()))
        = ([(\<lparr>q = js ''cats'', num = 10\<rparr>, True)], ())
   \<and> searchWeb_day3 cat_serper (js ''cats'') True () =
        (Inr [\<lparr>hit_title = js ''Cats'', hit_link = js ''https://a.example'',
               hit_snippet = js ''About cats'', hit_date = Some (js ''2024'')\<rparr>,
              \<lparr>hit_title = js ''Dogs'', hit_link = js ''https://b.example'',
               hit_snippet = js ''About dogs'', hit_date = None\<rparr>], ())
   \<and> searchWeb_part_000 cat_serper (js ''cats'') True () =
        (Inr [\<lparr>hit_title = js ''Cats'', hit_link = js ''https://a.example'',
               hit_snippet = js ''About cats''\<rparr>,
              \<lparr>hit_title = js ''Dogs'', hit_link = js ''https://b.example'',
               hit_snippet = js ''About dogs''\<rparr>], ())"
proof -
  have h: "cat_serper \<lparr>q = js ''cats'', num = 10\<rparr> True () = (Inr cat_results, ())"
    by (simp add: cat_serper_def)
  from searchWeb_calls_serper_with_10 [where searchSerper = cat_serper and query = "js ''cats''"
      and abortSignal = True and w = "()" and outcome = "Inr cat_results" and w' = "()"
      and calls = "[]", OF h] h
  show ?thesis
    by (simp add: cat_results_def)
qed

lemma scrapePages_fn_ok:
  assumes "bulkCrawlWebsites urls w = (Inr result, w')"
    and "success result \<Longrightarrow> list_all (\<lambda>(url, outcome). crawl_success outcome) (results result)"
  shows "scrapePages_fn bulkCrawlWebsites urls w =
     (Inr (map (\<lambda>(url, outcome).
                  case outcome of
                    CrawlSuccess text \<Rightarrow>
                      \<lparr>page_url = url, page_content = Some text, page_success = True\<rparr>
                  | CrawlError e \<Rightarrow>
                      \<lparr>page_url = url, page_content = Some (js ''Error: '' @ e),
                       page_success = False\<rparr>) (results result)), w')"
proof (cases "success result")
  case True
  with assms(2) have "list_all (\<lambda>(url, outcome). crawl_success outcome) (results result)"
    by simp
  then have "map (\<lambda>(url, crawlResult).
                \<lparr>page_url = url, page_content = crawl_data crawlResult, page_success = True\<rparr>)
             (results result)
       = map (\<lambda>(url, outcome).
                  case outcome of
                    CrawlSuccess text \<Rightarrow>
                      \<lparr>page_url = url, page_content = Some text, page_success = True\<rparr>
                  | CrawlError e \<Rightarrow>
                      \<lparr>page_url = url, page_content = Some (js ''Error: '' @ e),
                       page_success = False\<rparr>) (results result)"
    by (intro map_cong refl) (fastforce split: crawl_response.splits simp: list_all_iff)
  with True assms(1) show ?thesis by (simp add: scrapePages_fn_def)
next
  case False
  have "map (\<lambda>(url, crawlResult).
               \<lparr>page_url = url,
                page_content = (case crawlResult of CrawlSuccess d \<Rightarrow> Some d
                                | CrawlError e \<Rightarrow> Some (js ''Error: '' @ e)),
                page_success = crawl_success crawlResult\<rparr>) (results result)
       = map (\<lambda>(url, outcome).
                  case outcome of
                    CrawlSuccess text \<Rightarrow>
                      \<lparr>page_url = url, page_content = Some text, page_success = True\<rparr>
                  | CrawlError e \<Rightarrow>
                      \<lparr>page_url = url, page_content = Some (js ''Error: '' @ e),
                       page_success = False\<rparr>) (results result)"
    by (rule map_cong) (auto split: crawl_response.splits)
  with False assms(1) show ?thesis by (simp add: scrapePages_fn_def)
qed

text \<open>
  C3: the executor of \<open>scrapePages\<close> is the cache wrapper applied to the function below.
  When \<open>bulkCrawlWebsites\<close> returns one result per URL in the order of the input, with the
  flag \<open>success\<close> set only if every result is a success, that function returns one record
  per input URL, in order: for a success, \<open>success\<close> is true and \<open>content\<close> is the text;
  for a failure, \<open>success\<close> is false and \<open>content\<close> is \<open>Error: \<close> followed by the error.
\<close>

theorem scrapePages_one_record_per_url:
  assumes "bulkCrawlWebsites urls w = (Inr result, w')"
    and "map fst (results result) = urls"
    and "success result \<Longrightarrow> list_all (\<lambda>(url, outcome). crawl_success outcome) (results result)"
  shows "scrapePages_execute cacheWithRedis bulkCrawlWebsites urls abortSignal
           = cacheWithRedis (js ''scrapePages'') (scrapePages_fn bulkCrawlWebsites) urls
       \<and> (\<exists>pages. scrapePages_fn bulkCrawlWebsites urls w = (Inr pages, w')
             \<and> length pages = length urls
             \<and> map page_url pages = urls
             \<and> map (\<lambda>p. (page_success p, page_content p)) pages
                 = map (\<lambda>(url, outcome).
                          case outcome of
                            CrawlSuccess text \<Rightarrow> (True, Some text)
                          | CrawlError e \<Rightarrow> (False, Some (js ''Error: '' @ e)))
                       (results result))"
proof -
  let ?page = "\<lambda>(url, outcome).
                  case outcome of
                    CrawlSuccess text \<Rightarrow>
                      \<lparr>page_url = url, page_content = Some text, page_success = True\<rparr>
                  | CrawlError e \<Rightarrow>
                      \<lparr>page_url = url, page_content = Some (js ''Error: '' @ e),
                       page_success = False\<rparr>"
  let ?pages = "map ?page (results result)"
  have run: "scrapePages_fn bulkCrawlWebsites urls w = (Inr ?pages, w')"
    using assms(1,3) by (rule scrapePages_fn_ok)
  have "map page_url ?pages = map fst (results result)"
    by (auto split: crawl_response.splits)
  then have urls: "map page_url ?pages = urls" using assms(2) by simp
  have len: "length ?pages = length urls"
    using assms(2) by (metis length_map)
  have each: "map (\<lambda>p. (page_success p, page_content p)) ?pages
       = map (\<lambda>(url, outcome).
                 case outcome of
                   CrawlSuccess text \<Rightarrow> (True, Some text)
                 | CrawlError e \<Rightarrow> (False, Some (js ''Error: '' @ e)))
             (results result)"
    by (auto split: crawl_response.splits)
  have exec: "scrapePages_execute cacheWithRedis bulkCrawlWebsites urls abortSignal
           = cacheWithRedis (js ''scrapePages'') (scrapePages_fn bulkCrawlWebsites) urls"
    by (simp add: scrapePages_execute_def)
  from run urls len each exec show ?thesis by blast
qed

text \<open>Two URLs, the second of which failed: both are in the output.\<close>

theorem scrapePages_one_record_per_url_witness:
  "scrapePages_fn mixed_crawl two_urls () =
     (Inr [\<lparr>page_url = js ''https://a.example'', page_content = Some (js ''About cats''),
            page_success = True\<rparr>,
           \<lparr>page_url = js ''https://b.example'', page_content = Some (js ''Error: timeout''),
            page_success = False\<rparr>], ())"
proof -
  let ?result = "\<lparr>success = False,
           results = [(js ''https://a.example'', CrawlSuccess (js ''About cats'')),
                      (js ''https://b.example'', CrawlError (js ''timeout''))]\<rparr>"
  have h1: "mixed_crawl two_urls () = (Inr ?result, ())"
    by (simp add: mixed_crawl_def)
  have h2: "map fst (results ?result) = two_urls"
    by (simp add: two_urls_def)
  have h3: "success ?result \<Longrightarrow>
      list_all (\<lambda>(url, outcome). crawl_success outcome) (results ?result)"
    by simp
  from scrapePages_one_record_per_url [where bulkCrawlWebsites = mixed_crawl
      and urls = two_urls and w = "()" and result = "?result" and w' = "()"
      and cacheWithRedis = "\<lambda>name fn. fn" and abortSignal = True, OF h1 h2 h3]
  obtain pages where run: "scrapePages_fn mixed_crawl two_urls () = (Inr pages, ())"
    and urls: "map page_url pages = two_urls"
    and each: "map (\<lambda>p. (page_success p, page_content p)) pages
                 = map (\<lambda>(url, outcome).
                          case outcome of
                            CrawlSuccess text \<Rightarrow> (True, Some text)
                          | CrawlError e \<Rightarrow> (False, Some (js ''Error: '' @ e)))
                       (results ?result)"
    by blast
  from urls each have "pages =
          [\<lparr>page_url = js ''https://a.example'', page_content = Some (js ''About cats''),
            page_success = True\<rparr>,
           \<lparr>page_url = js ''https://b.example'', page_content = Some (js ''Error: timeout''),
            page_success = False\<rparr>]"
    by (auto simp: two_urls_def js_def)
  with run show ?thesis by simp
qed

section \<open>The cache layer: hits, misses and failures\<close>

lemma memoize_hit:
  assumes "cache_get (clock c) (store c) (cache_key policy name args) = Some v"
  shows "memoize policy name fn args c = (Inr v, c)"
  using assms by (simp add: memoize_def)

lemma memoize_miss:
  assumes "cache_get (clock c) (store c) (cache_key policy name args) = None"
  shows "memoize policy name fn args c =
     (case fn args (outside c) of
        (Inl e, w') \<Rightarrow> (Inl e, c\<lparr>outside := w'\<rparr>)
      | (Inr v, w') \<Rightarrow>
          (Inr v, c\<lparr>store := cache_set (clock c) (ttl policy) (cache_key policy name args) v
                                (store c),
                    outside := w'\<rparr>))"
  using assms by (simp add: memoize_def)

lemma cache_get_later:
  assumes "cache_get now st k = None" "now \<le> later"
  shows "cache_get later st k = None"
  using assms by (auto simp: cache_get_def split: option.splits if_splits)

lemma cache_get_set:
  assumes "now \<le> later" "later < now + life"
  shows "cache_get later (cache_set now life k v st) k = Some v"
  using assms by (simp add: cache_get_def cache_set_def)

lemma memoize_Inl_was_miss:
  assumes "memoize policy name fn args c = (Inl e, c')"
  shows "cache_get (clock c) (store c) (cache_key policy name args) = None"
  using assms by (cases "cache_get (clock c) (store c) (cache_key policy name args)")
    (simp_all add: memoize_hit)

text \<open>
  C4: when a call through the memoized function ends in an error, the store held no live
  entry under the key, \<open>fn\<close> was invoked and rejected with that very error, and nothing
  but the world outside has changed: the store is as it was. A call with the same arguments
  at any later time, on the store as it was left, is again a miss: its outcome is the one
  of \<open>fn\<close> on the arguments, invoked anew.
\<close>

theorem memoize_failure_not_cached:
  assumes "memoize policy name fn args c = (Inl e, c')" and "clock c \<le> later"
  shows "fn args (outside c) = (Inl e, outside c')
       \<and> c' = c\<lparr>outside := outside c'\<rparr>
       \<and> memoize policy name fn args (c'\<lparr>clock := later, outside := w\<rparr>) =
           (case fn args w of
              (Inl e2, w2) \<Rightarrow> (Inl e2, c'\<lparr>clock := later, outside := w2\<rparr>)
            | (Inr v, w2) \<Rightarrow>
                (Inr v, c'\<lparr>clock := later,
                          store := cache_set later (ttl policy) (cache_key policy name args) v
                                     (store c),
                          outside := w2\<rparr>))"
proof -
  let ?k = "cache_key policy name args"
  have miss: "cache_get (clock c) (store c) ?k = None"
    using assms(1) by (rule memoize_Inl_was_miss)
  from assms(1) have run: "(case fn args (outside c) of
        (Inl e, w') \<Rightarrow> (Inl e, c\<lparr>outside := w'\<rparr>)
      | (Inr v, w') \<Rightarrow>
          (Inr v, c\<lparr>store := cache_set (clock c) (ttl policy) ?k v (store c),
                    outside := w'\<rparr>)) = (Inl e, c')"
    by (simp add: memoize_miss [OF miss])
  then have a: "fn args (outside c) = (Inl e, outside c')" and b: "c' = c\<lparr>outside := outside c'\<rparr>"
    by (auto split: prod.splits sum.splits)
  from b have st: "store c' = store c" and cl: "clock c' = clock c"
    by (metis cached_world.select_convs(2) cached_world.surjective cached_world.update_convs(3),
        metis cached_world.select_convs(1) cached_world.surjective cached_world.update_convs(3))
  have "cache_get later (store c') ?k = None"
    using miss assms(2) st by (simp add: cache_get_later)
  then have "cache_get (clock (c'\<lparr>clock := later, outside := w\<rparr>))
               (store (c'\<lparr>clock := later, outside := w\<rparr>)) ?k = None"
    by simp
  from memoize_miss [OF this, of fn]
  have c: "memoize policy name fn args (c'\<lparr>clock := later, outside := w\<rparr>) =
           (case fn args w of
              (Inl e2, w2) \<Rightarrow> (Inl e2, c'\<lparr>clock := later, outside := w2\<rparr>)
            | (Inr v, w2) \<Rightarrow>
                (Inr v, c'\<lparr>clock := later,
                          store := cache_set later (ttl policy) ?k v (store c),
                          outside := w2\<rparr>))"
    by (simp add: st split: prod.splits sum.splits)
  from a b c show ?thesis by blast
qed

text \<open>The service is down at the first call and up at the second: the operation is invoked
  both times (the counter goes from 0 to 1 and from 1 to 2), and only the second call
  writes an entry.\<close>

theorem memoize_failure_not_cached_witness:
  "memoize list_policy (js ''scrapePages'') (\<lambda>a. counted (flaky a)) two_urls
       (empty_cache 0 (0, False))
     = (Inl (FnRejected (js ''down'')), empty_cache 0 (1, False))
   \<and> memoize list_policy (js ''scrapePages'') (\<lambda>a. counted (flaky a)) two_urls
       (empty_cache 5 (1, True))
     = (Inr 2, \<lparr>clock = 5,
               store = cache_set 5 60 (cache_key list_policy (js ''scrapePages'') two_urls) 2
                         Map.empty,
               outside = (2, True)\<rparr>)"
proof -
  have h1: "memoize list_policy (js ''scrapePages'') (\<lambda>a. counted (flaky a)) two_urls
       (empty_cache 0 (0, False))
     = (Inl (FnRejected (js ''down'')), empty_cache 0 (1, False))"
    by (simp add: memoize_def cache_get_def empty_cache_def counted_def flaky_def)
  have h2: "clock (empty_cache 0 (0::nat, False) :: (nat, nat \<times> bool) cached_world) \<le> 5"
    by (simp add: empty_cache_def)
  note t = memoize_failure_not_cached [OF h1 h2, of "(1, True)"]
  from t have "memoize list_policy (js ''scrapePages'') (\<lambda>a. counted (flaky a)) two_urls
       ((empty_cache 0 (1, False))\<lparr>clock := 5, outside := (1, True)\<rparr>)
     = (Inr 2, \<lparr>clock = 5,
               store = cache_set 5 60 (cache_key list_policy (js ''scrapePages'') two_urls) 2
                         Map.empty,
               outside = (2, True)\<rparr>)"
    by (simp add: empty_cache_def counted_def flaky_def two_urls_def list_policy_def
        numeral_2_eq_2)
  then have "memoize list_policy (js ''scrapePages'') (\<lambda>a. counted (flaky a)) two_urls
       (empty_cache 5 (1, True))
     = (Inr 2, \<lparr>clock = 5,
               store = cache_set 5 60 (cache_key list_policy (js ''scrapePages'') two_urls) 2
                         Map.empty,
               outside = (2, True)\<rparr>)"
    by (simp add: empty_cache_def)
  with h1 show ?thesis by blast
qed

lemma searchWeb_day3_cached_miss:
  assumes "cache_get (clock c) (store c) (cache_key policy (js ''serper'') \<lparr>q = query, num = 10\<rparr>)
            = None"
    and "searchWeb_day3 (searchSerper_cached policy provider) query abortSignal c = (Inr hits, c1)"
  shows "\<exists>res w1. provider \<lparr>q = query, num = 10\<rparr> abortSignal (outside c) = (Inr res, w1)
       \<and> hits = map (\<lambda>r. \<lparr>hit_title = r_title r, hit_link = r_link r,
                              hit_snippet = r_snippet r, hit_date = r_date r\<rparr>) (organic res)
       \<and> c1 = c\<lparr>store := cache_set (clock c) (ttl policy)
                            (cache_key policy (js ''serper'') \<lparr>q = query, num = 10\<rparr>) res (store c),
                 outside := w1\<rparr>"
  using assms(2)
  by (auto simp: searchWeb_day3_def searchSerper_cached_def memoize_miss [OF assms(1)]
      split: prod.splits sum.splits)

text \<open>
  C2: with \<open>searchSerper\<close> going through the cache layer, when an invocation of the search
  tool found no live entry for the query and succeeded, an invocation with the same query
  (and whatever abort signal) at a later time within the TTL, on the store as the first one
  left it, returns the same result and leaves the world outside the cache untouched: the
  search provider is not invoked.
\<close>

theorem search_repeat_is_cache_hit:
  assumes "searchWeb_day3 (searchSerper_cached policy provider) query abortSignal c = (Inr hits, c1)"
    and "cache_get (clock c) (store c) (cache_key policy (js ''serper'') \<lparr>q = query, num = 10\<rparr>)
           = None"
    and "clock c \<le> later" and "later < clock c + ttl policy"
  shows "searchWeb_day3 (searchSerper_cached policy provider) query abortSignal'
           (c1\<lparr>clock := later, outside := w\<rparr>)
         = (Inr hits, c1\<lparr>clock := later, outside := w\<rparr>)"
proof -
  let ?k = "cache_key policy (js ''serper'') \<lparr>q = query, num = 10\<rparr>"
  from searchWeb_day3_cached_miss [OF assms(2,1)] obtain res w1 where
    hits: "hits = map (\<lambda>r. \<lparr>hit_title = r_title r, hit_link = r_link r,
                              hit_snippet = r_snippet r, hit_date = r_date r\<rparr>) (organic res)"
    and c1: "c1 = c\<lparr>store := cache_set (clock c) (ttl policy) ?k res (store c), outside := w1\<rparr>"
    by blast
  let ?c2 = "c1\<lparr>clock := later, outside := w\<rparr>"
  have "cache_get (clock ?c2) (store ?c2) ?k = Some res"
    using assms(3,4) by (simp add: c1 cache_get_set)
  then have "memoize policy (js ''serper'') (\<lambda>r. provider r abortSignal')
               \<lparr>q = query, num = 10\<rparr> ?c2 = (Inr res, ?c2)"
    by (rule memoize_hit)
  then show ?thesis
    by (simp add: searchWeb_day3_def searchSerper_cached_def hits)
qed

text \<open>The first search at time 100 invokes the provider once; the same search at time 159,
  the last moment of the entry's 60 units, does not: the counter stays at 1.\<close>

theorem search_repeat_is_cache_hit_witness:
  "searchWeb_day3 (searchSerper_cached search_policy (\<lambda>r sig. counted (cat_serper r sig)))
       (js ''cats'') True (empty_cache 100 (0, ()))
     = (Inr cat_hits,
        \<lparr>clock = 100,
         store = cache_set 100 60
                   (cache_key search_policy (js ''serper'') \<lparr>q = js ''cats'', num = 10\<rparr>)
                   cat_results Map.empty,
         outside = (1, ())\<rparr>)
   \<and> searchWeb_day3 (searchSerper_cached search_policy (\<lambda>r sig. counted (cat_serper r sig)))
       (js ''cats'') True
       \<lparr>clock = 159,
        store = cache_set 100 60
                  (cache_key search_policy (js ''serper'') \<lparr>q = js ''cats'', num = 10\<rparr>)
                  cat_results Map.empty,
        outside = (1, ())\<rparr>
     = (Inr cat_hits,
        \<lparr>clock = 159,
         store = cache_set 100 60
                   (cache_key search_policy (js ''serper'') \<lparr>q = js ''cats'', num = 10\<rparr>)
                   cat_results Map.empty,
         outside = (1, ())\<rparr>)"
proof -
  let ?S = "searchSerper_cached search_policy (\<lambda>r sig. counted (cat_serper r sig))"
  let ?k = "cache_key search_policy (js ''serper'') \<lparr>q = js ''cats'', num = 10\<rparr>"
  let ?c1 = "\<lparr>clock = 100, store = cache_set 100 60 ?k cat_results Map.empty,
              outside = (1::nat, ())\<rparr>"
  have h1: "searchWeb_day3 ?S (js ''cats'') True (empty_cache 100 (0, ())) = (Inr cat_hits, ?c1)"
    by (simp add: searchWeb_day3_def searchSerper_cached_def memoize_def cache_get_def
        empty_cache_def counted_def cat_serper_def cat_results_def cat_hits_def
        search_policy_def)
  have h2: "cache_get (clock (empty_cache 100 (0::nat, ())))
              (store (empty_cache 100 (0::nat, ()) :: (_, nat \<times> unit) cached_world)) ?k = None"
    by (simp add: cache_get_def empty_cache_def)
  have h3: "clock (empty_cache 100 (0::nat, ()) :: ((nat organic_result_scheme) serper_response, nat \<times> unit) cached_world) \<le> 159"
    by (simp add: empty_cache_def)
  have h4: "159 < clock (empty_cache 100 (0::nat, ()) :: ((nat organic_result_scheme) serper_response, nat \<times> unit) cached_world) + ttl search_policy"
    by (simp add: empty_cache_def search_policy_def)
  from search_repeat_is_cache_hit [OF h1 h2 h3 h4, of True "(1, ())"]
  have "searchWeb_day3 ?S (js ''cats'') True (?c1\<lparr>clock := 159\<rparr>)
          = (Inr cat_hits, ?c1\<lparr>clock := 159\<rparr>)"
    by simp
  then have "searchWeb_day3 ?S (js ''cats'') True
       \<lparr>clock = 159, store = cache_set 100 60 ?k cat_results Map.empty, outside = (1, ())\<rparr>
     = (Inr cat_hits,
        \<lparr>clock = 159, store = cache_set 100 60 ?k cat_results Map.empty, outside = (1, ())\<rparr>)"
    by simp
  with h1 show ?thesis by blast
qed

section \<open>The bulk extractor: the batch\<close>

lemma results_crawlAll:
  "results (crawlAll c urls maxConcurrency perUrlTimeout maxRetries) =
     map (\<lambda>url. (url, crawl_url c perUrlTimeout url maxRetries 0)) urls"
  by (simp add: crawlAll_def Let_def)

lemma success_crawlAll:
  "success (crawlAll c urls maxConcurrency perUrlTimeout maxRetries) =
     list_all (\<lambda>(url, outcome). crawl_success outcome)
       (results (crawlAll c urls maxConcurrency perUrlTimeout maxRetries))"
  by (simp add: crawlAll_def Let_def)

text \<open>
  C1: for every list of URLs, the batch of the bulk crawl holds exactly one outcome per
  URL, at the position of the URL in the input and paired with it: the outcome of crawling
  that URL, success or failure. The flag \<open>success\<close> is true exactly when every outcome
  is a success. The empty list gives the empty batch.
\<close>

theorem crawlAll_one_outcome_per_url:
  "length (results (crawlAll c urls maxConcurrency perUrlTimeout maxRetries)) = length urls
   \<and> map fst (results (crawlAll c urls maxConcurrency perUrlTimeout maxRetries)) = urls
   \<and> map snd (results (crawlAll c urls maxConcurrency perUrlTimeout maxRetries))
       = map (\<lambda>url. crawl_url c perUrlTimeout url maxRetries 0) urls
   \<and> success (crawlAll c urls maxConcurrency perUrlTimeout maxRetries)
       = list_all (\<lambda>(url, outcome). crawl_success outcome)
           (results (crawlAll c urls maxConcurrency perUrlTimeout maxRetries))
   \<and> crawlAll c [] maxConcurrency perUrlTimeout maxRetries = \<lparr>success = True, results = []\<rparr>"
proof -
  have "map fst (results (crawlAll c urls maxConcurrency perUrlTimeout maxRetries)) = urls"
    by (simp add: results_crawlAll comp_def)
  moreover have "map snd (results (crawlAll c urls maxConcurrency perUrlTimeout maxRetries))
       = map (\<lambda>url. crawl_url c perUrlTimeout url maxRetries 0) urls"
    by (simp add: results_crawlAll comp_def)
  moreover have "length (results (crawlAll c urls maxConcurrency perUrlTimeout maxRetries))
       = length urls"
    by (simp add: results_crawlAll)
  moreover have "crawlAll c [] maxConcurrency perUrlTimeout maxRetries
       = \<lparr>success = True, results = []\<rparr>"
    by (simp add: crawlAll_def Let_def)
  ultimately show ?thesis using success_crawlAll by blast
qed

text \<open>Three URLs: one that is there, one that times out at all three attempts, one that
  is there at the second attempt.\<close>

theorem crawlAll_one_outcome_per_url_witness:
  "crawlAll example_crawler
       [js ''https://a.example'', js ''https://b.example'', js ''https://c.example''] 3 1000 2
     = \<lparr>success = False,
        results = [(js ''https://a.example'', CrawlSuccess (js ''About cats'')),
                   (js ''https://b.example'', CrawlError (js ''timeout'')),
                   (js ''https://c.example'', CrawlSuccess (js ''About birds''))]\<rparr>"
proof -
  let ?urls = "[js ''https://a.example'', js ''https://b.example'', js ''https://c.example'']"
  let ?b = "crawlAll example_crawler ?urls 3 1000 2"
  note t = crawlAll_one_outcome_per_url [of example_crawler ?urls 3 1000 2]
  have two: "(2::nat) = Suc (Suc 0)" by simp
  from t have "map snd (results ?b) = map (\<lambda>url. crawl_url example_crawler 1000 url 2 0) ?urls"
    by blast
  then have s: "map snd (results ?b) =
      [CrawlSuccess (js ''About cats''), CrawlError (js ''timeout''),
       CrawlSuccess (js ''About birds'')]"
    by (simp add: two example_crawler_def js_def)
  from t have f: "map fst (results ?b) = ?urls" by blast
  from f s have r: "results ?b = [(js ''https://a.example'', CrawlSuccess (js ''About cats'')),
                   (js ''https://b.example'', CrawlError (js ''timeout'')),
                   (js ''https://c.example'', CrawlSuccess (js ''About birds''))]"
    by (metis (no_types, lifting) zip_map_fst_snd zip_Cons_Cons zip_Nil)
  from t have "success ?b = list_all (\<lambda>(url, outcome). crawl_success outcome) (results ?b)"
    by blast
  with r have "success ?b = False" by simp
  with r show ?thesis
    by (metis (full_types) bulk_crawl_response.surjective old.unit.exhaust)
qed

section \<open>The agent loop: the step budget\<close>

lemma maxSteps_options:
  "maxSteps (streamText_options_day3 msgs) = 10" "maxSteps (streamText_options_part_000 msgs) = 10"
  by (simp_all add: streamText_options_day3_def streamText_options_part_000_def)

lemma agentLoop_budget:
  "budget \<le> stepIndex \<Longrightarrow>
     agentLoop generate dispatch transcript budget stepIndex sts w =
       (Inr \<lparr>steps = sts, final_text = last_text sts, finish = BudgetExhausted\<rparr>, w)"
  by simp

lemma dispatch_all_uncounted:
  "snd (dispatch_all (\<lambda>call. uncounted (dispatch call)) calls (n, w)) =
     (n, snd (dispatch_all dispatch calls w))"
proof (induction calls arbitrary: n w)
  case Nil
  then show ?case by simp
next
  case (Cons call calls)
  obtain r w1 where d: "dispatch call w = (r, w1)" by (cases "dispatch call w")
  obtain rs w2 where ds: "dispatch_all dispatch calls w1 = (rs, w2)"
    by (cases "dispatch_all dispatch calls w1")
  from Cons.IH [of n w1] ds
  have "snd (dispatch_all (\<lambda>call. uncounted (dispatch call)) calls (n, w1)) = (n, w2)"
    by simp
  with d ds show ?case
    by (auto simp: uncounted_def split: prod.splits)
qed

lemma dispatch_all_counter:
  "fst (snd (dispatch_all (\<lambda>call. uncounted (dispatch call)) calls (n, w))) = n"
  by (simp add: dispatch_all_uncounted)

text \<open>From step \<open>stepIndex\<close> on, the model is invoked at most \<open>budget - stepIndex\<close>
  times.\<close>

lemma agentLoop_generations:
  "fst (snd (agentLoop (\<lambda>t. counted (generate t)) (\<lambda>call. uncounted (dispatch call))
              transcript budget stepIndex sts (n, w)))
     \<le> n + (budget - stepIndex)"
proof (induction "budget - stepIndex" arbitrary: stepIndex sts n w)
  case 0
  then have "budget \<le> stepIndex" by simp
  then show ?case by simp
next
  case (Suc k)
  then have lt: "\<not> budget \<le> stepIndex" by simp
  obtain r w1 where g: "generate (transcript, sts) w = (r, w1)"
    by (cases "generate (transcript, sts) w")
  show ?case
  proof (cases r)
    case (Inl e)
    with g lt show ?thesis
      by (subst agentLoop.simps) (simp add: counted_def)
  next
    case (Inr out)
    show ?thesis
    proof (cases "toolCalls out = []")
      case True
      with Inr g lt show ?thesis
        by (subst agentLoop.simps) (simp add: counted_def Let_def)
    next
      case False
      let ?D = "dispatch_all (\<lambda>call. uncounted (dispatch call)) (toolCalls out) (Suc n, w1)"
      obtain rs m w2 where d: "?D = (rs, (m, w2))" by (cases ?D) auto
      have m: "m = Suc n"
        using dispatch_all_counter [of dispatch "toolCalls out" "Suc n" w1] d by simp
      from Suc.hyps(2) have k: "k = budget - Suc stepIndex" by simp
      note ih = Suc.hyps(1) [OF k, of "sts @ [\<lparr>step_index = stepIndex, model_output = out,
                   toolResults = rs\<rparr>]" "Suc n" w2]
      from Inr g lt False d m ih Suc.hyps(2) show ?thesis
        by (subst agentLoop.simps) (simp add: counted_def)
    qed
  qed
qed

lemma last_text_nonempty:
  "sts \<noteq> [] \<Longrightarrow> last_text sts = Some (step_text (model_output (last sts)))"
  by (cases sts) (simp_all add: last_text_def)

text \<open>A run that ends on the budget has made \<open>budget\<close> steps, and its final text is the
  text of the last of them.\<close>

lemma agentLoop_exhausted:
  assumes "agentLoop generate dispatch transcript budget stepIndex sts w = (Inr r, w')"
    and "finish r = BudgetExhausted" and "length sts = stepIndex" and "stepIndex \<le> budget"
  shows "length (steps r) = budget \<and> final_text r = last_text (steps r)"
  using assms
proof (induction "budget - stepIndex" arbitrary: stepIndex sts w)
  case 0
  then have "budget \<le> stepIndex" by simp
  with "0.prems" show ?case by auto
next
  case (Suc k)
  then have lt: "\<not> budget \<le> stepIndex" by simp
  obtain g w1 where g: "generate (transcript, sts) w = (g, w1)"
    by (cases "generate (transcript, sts) w")
  show ?case
  proof (cases g)
    case (Inl e)
    with g lt Suc.prems(1) show ?thesis
      by (subst (asm) agentLoop.simps) simp
  next
    case (Inr out)
    show ?thesis
    proof (cases "toolCalls out = []")
      case True
      with Inr g lt Suc.prems(1,2) show ?thesis
        by (subst (asm) agentLoop.simps) (auto simp: Let_def)
    next
      case False
      obtain rs w2 where d: "dispatch_all dispatch (toolCalls out) w1 = (rs, w2)"
        by (cases "dispatch_all dispatch (toolCalls out) w1")
      let ?sts = "sts @ [\<lparr>step_index = stepIndex, model_output = out, toolResults = rs\<rparr>]"
      from Inr g lt False d Suc.prems(1)
      have run: "agentLoop generate dispatch transcript budget (Suc stepIndex) ?sts w2 = (Inr r, w')"
        by (subst (asm) agentLoop.simps) simp
      from Suc.hyps(2) have k: "k = budget - Suc stepIndex" by simp
      from Suc.prems(3) have len: "length ?sts = Suc stepIndex" by simp
      from lt have le: "Suc stepIndex \<le> budget" by simp
      from Suc.hyps(1) [OF k run Suc.prems(2) len le] show ?thesis .
    qed
  qed
qed

text \<open>With a model that never fails and asks for a tool at every step, the run ends on the
  budget, and not in an error.\<close>

lemma agentLoop_hungry:
  assumes "\<And>t w. case generate t w of (Inl e, w') \<Rightarrow> False | (Inr out, w') \<Rightarrow> toolCalls out \<noteq> []"
  shows "\<exists>r w'. agentLoop generate dispatch transcript budget stepIndex sts w = (Inr r, w')
           \<and> finish r = BudgetExhausted"
proof (induction "budget - stepIndex" arbitrary: stepIndex sts w)
  case 0
  then have "budget \<le> stepIndex" by simp
  then show ?case by simp
next
  case (Suc k)
  then have lt: "\<not> budget \<le> stepIndex" by simp
  from assms [of "(transcript, sts)" w]
  obtain out w1 where g: "generate (transcript, sts) w = (Inr out, w1)"
    and calls: "toolCalls out \<noteq> []"
    by (auto split: prod.splits sum.splits)
  obtain rs w2 where d: "dispatch_all dispatch (toolCalls out) w1 = (rs, w2)"
    by (cases "dispatch_all dispatch (toolCalls out) w1")
  from Suc.hyps(2) have k: "k = budget - Suc stepIndex" by simp
  from Suc.hyps(1) [OF k, of "sts @ [\<lparr>step_index = stepIndex, model_output = out,
                 toolResults = rs\<rparr>]" w2]
  show ?case using g calls d lt
    by (subst agentLoop.simps) simp
qed

text \<open>The \<open>streamText\<close> calls of a request: one, with the options of the handler, when the
  handler answers with the data stream, and none otherwise.\<close>

lemma stream_calls_append: "stream_calls (xs @ ys) = stream_calls xs @ stream_calls ys"
  by (induction xs rule: stream_calls.induct) simp_all

lemma stream_calls_execute_day3:
  "stream_calls (app_log (execute_day3 b s)) =
     stream_calls (app_log s) @ [streamText_options_day3 (body_messages b)]"
  by (simp add: execute_day3_def Let_def stream_calls_append)

lemma stream_calls_execute_part_000:
  "stream_calls (app_log (execute_part_000 b s)) =
     stream_calls (app_log s) @ [streamText_options_part_000 (body_messages b)]"
  by (simp add: execute_part_000_def Let_def stream_calls_append)

lemma call_upsertChat_stream_calls:
  "call_upsertChat now opts s = (r, s') \<Longrightarrow> stream_calls (app_log s') = stream_calls (app_log s)"
  by (auto simp: stream_calls_append dest!: call_upsertChat_log)

lemma findFirstChat_stream_calls:
  "findFirstChat cid s = (r, s') \<Longrightarrow> stream_calls (app_log s') = stream_calls (app_log s)"
  by (auto simp: stream_calls_append dest!: findFirstChat_log)

lemma POST_day3_stream_calls:
  "stream_calls (app_log (snd (POST_day3 sess b now s))) =
     stream_calls (app_log s) @
       (if fst (POST_day3 sess b now s) = Inr DataStreamResponse
        then [streamText_options_day3 (body_messages b)] else [])"
  by (auto simp: POST_day3_def Let_def stream_calls_append stream_calls_execute_day3
        dest!: call_upsertChat_stream_calls findFirstChat_stream_calls
        split: prod.splits sum.splits option.splits)

lemma POST_part_000_stream_calls:
  "stream_calls (app_log (snd (POST_part_000 sess b now s))) =
     stream_calls (app_log s) @
       (if fst (POST_part_000 sess b now s) = Inr DataStreamResponse
        then [streamText_options_part_000 (body_messages b)] else [])"
  by (auto simp: POST_part_000_def Let_def stream_calls_append stream_calls_execute_part_000
        dest!: call_upsertChat_stream_calls findFirstChat_stream_calls
        split: prod.splits sum.splits option.splits)

text \<open>
  C8: for every request, each of the two handlers calls \<open>streamText\<close> exactly once when it
  answers with the data stream, and not at all otherwise, and the options of that call are
  the inbound messages with the step budget 10. The loop run with these options invokes the
  model at most 10 times, whatever the model and the tools do. A run that ends on the budget
  is not an error: it has made 10 steps and its final text is the text of the last of them.
  With a model that never fails and asks for a tool at every step, the run does end on the
  budget.
\<close>

theorem streamText_budget_is_10:
  "stream_calls (app_log (snd (POST_day3 sess b now s))) =
     stream_calls (app_log s) @
       (if fst (POST_day3 sess b now s) = Inr DataStreamResponse
        then [streamText_options_day3 (body_messages b)] else [])
   \<and> stream_calls (app_log (snd (POST_part_000 sess b now s))) =
     stream_calls (app_log s) @
       (if fst (POST_part_000 sess b now s) = Inr DataStreamResponse
        then [streamText_options_part_000 (body_messages b)] else [])
   \<and> streamText_options_day3 msgs =
       \<lparr>cfg_messages = msgs, maxSteps = 10, tool_names = [''searchWeb'', ''scrapePages'']\<rparr>
   \<and> streamText_options_part_000 msgs =
       \<lparr>cfg_messages = msgs, maxSteps = 10, tool_names = [''searchWeb'']\<rparr>
   \<and> maxSteps (streamText_options_day3 msgs) = 10
   \<and> maxSteps (streamText_options_part_000 msgs) = 10
   \<and> fst (snd (streamText (\<lambda>t. counted (generate t)) (\<lambda>call. uncounted (dispatch call))
                  (streamText_options_day3 msgs) (0, w))) \<le> 10
   \<and> fst (snd (streamText (\<lambda>t. counted (generate t)) (\<lambda>call. uncounted (dispatch call))
                  (streamText_options_part_000 msgs) (0, w))) \<le> 10
   \<and> (\<forall>options r w'.
         options \<in> {streamText_options_day3 msgs, streamText_options_part_000 msgs}
         \<and> streamText generate dispatch options w = (Inr r, w') \<and> finish r = BudgetExhausted
         \<longrightarrow> length (steps r) = 10
             \<and> final_text r = Some (step_text (model_output (last (steps r)))))
   \<and> ((\<forall>t w. case generate t w of (Inl e, w') \<Rightarrow> False | (Inr out, w') \<Rightarrow> toolCalls out \<noteq> [])
        \<longrightarrow> (\<forall>options \<in> {streamText_options_day3 msgs, streamText_options_part_000 msgs}.
               \<exists>r w'. streamText generate dispatch options w = (Inr r, w')
                     \<and> finish r = BudgetExhausted))"
proof -
  have a: "maxSteps (streamText_options_day3 msgs) = 10"
    and b: "maxSteps (streamText_options_part_000 msgs) = 10"
    by (simp_all add: maxSteps_options)
  have c: "fst (snd (streamText (\<lambda>t. counted (generate t)) (\<lambda>call. uncounted (dispatch call))
                  (streamText_options_day3 msgs) (0, w))) \<le> 10"
    using agentLoop_generations [of generate dispatch "cfg_messages (streamText_options_day3 msgs)"
        10 0 "[]" 0 w]
    by (simp add: streamText_def a)
  have d: "fst (snd (streamText (\<lambda>t. counted (generate t)) (\<lambda>call. uncounted (dispatch call))
                  (streamText_options_part_000 msgs) (0, w))) \<le> 10"
    using agentLoop_generations [of generate dispatch
        "cfg_messages (streamText_options_part_000 msgs)" 10 0 "[]" 0 w]
    by (simp add: streamText_def b)
  have e: "length (steps r) = 10
             \<and> final_text r = Some (step_text (model_output (last (steps r))))"
    if opt: "options \<in> {streamText_options_day3 msgs, streamText_options_part_000 msgs}"
      and run: "streamText generate dispatch options w = (Inr r, w')"
      and fin: "finish r = BudgetExhausted" for options r w'
  proof -
    from opt a b have m: "maxSteps options = 10" by auto
    from run have "agentLoop generate dispatch (cfg_messages options) 10 0 [] w = (Inr r, w')"
      by (simp add: streamText_def m)
    from agentLoop_exhausted [OF this fin]
    have len: "length (steps r) = 10" and fin_text: "final_text r = last_text (steps r)" by simp_all
    from len have "steps r \<noteq> []" by auto
    with fin_text len show ?thesis by (simp add: last_text_nonempty)
  qed
  have f: "\<exists>r w'. streamText generate dispatch options w = (Inr r, w') \<and> finish r = BudgetExhausted"
    if h: "\<forall>t w. case generate t w of (Inl e, w') \<Rightarrow> False | (Inr out, w') \<Rightarrow> toolCalls out \<noteq> []"
    for options
    unfolding streamText_def by (rule agentLoop_hungry) (rule spec [OF spec [OF h]])
  have g: "streamText_options_day3 msgs =
       \<lparr>cfg_messages = msgs, maxSteps = 10, tool_names = [''searchWeb'', ''scrapePages'']\<rparr>"
    and h: "streamText_options_part_000 msgs =
       \<lparr>cfg_messages = msgs, maxSteps = 10, tool_names = [''searchWeb'']\<rparr>"
    by (simp_all add: streamText_options_day3_def streamText_options_part_000_def)
  note i = POST_day3_stream_calls [of sess b now s]
    and j = POST_part_000_stream_calls [of sess b now s]
  from a b c d e f g h i j show ?thesis by blast
qed

text \<open>Bob opens a new chat with one message: both handlers answer with the data stream
  and call \<open>streamText\<close> once, with the budget 10. With these options, the model that
  always asks for a tool is invoked exactly 10 times, and the run ends on the budget with a
  result.\<close>

theorem streamText_budget_is_10_witness:
  "fst (POST_day3 (Some bob_session) hi_body 7 alice_app) = Inr DataStreamResponse
   \<and> stream_calls (app_log (snd (POST_day3 (Some bob_session) hi_body 7 alice_app)))
       = [\<lparr>cfg_messages = body_messages hi_body, maxSteps = 10,
           tool_names = [''searchWeb'', ''scrapePages'']\<rparr>]
   \<and> fst (POST_part_000 (Some bob_session) hi_body 7 alice_app) = Inr DataStreamResponse
   \<and> stream_calls (app_log (snd (POST_part_000 (Some bob_session) hi_body 7 alice_app)))
       = [\<lparr>cfg_messages = body_messages hi_body, maxSteps = 10, tool_names = [''searchWeb'']\<rparr>]
   \<and> (\<exists>r w'. streamText hungry_model echo_tool
                 (streamText_options_day3 (body_messages hi_body)) () = (Inr r, w')
          \<and> finish r = BudgetExhausted
          \<and> length (steps r) = 10
          \<and> final_text r = Some (step_text (model_output (last (steps r)))))
   \<and> fst (snd (streamText (\<lambda>t. counted (hungry_model t)) (\<lambda>call. uncounted (echo_tool call))
                  (streamText_options_day3 (body_messages hi_body)) (0, ()))) \<le> 10
   \<and> fst (snd (streamText (\<lambda>t. counted (hungry_model t)) (\<lambda>call. uncounted (echo_tool call))
                  (streamText_options_day3 (body_messages hi_body)) (0, ()))) = 10"
proof -
  let ?msgs = "body_messages hi_body"
  have exact: "fst (snd (streamText (\<lambda>t. counted (hungry_model t))
       (\<lambda>call. uncounted (echo_tool call)) (streamText_options_day3 ?msgs) (0, ()))) = 10"
    by (simp add: streamText_def streamText_options_day3_def counted_def uncounted_def
        hungry_model_def echo_tool_def)
  have new: "chats alice_db (js ''c9'') = None"
    by (simp add: alice_db_eq chat1_def js_def)
  have up: False if "upsertChat 7 opts alice_db = (Inl e, d)" "chatId opts = js ''c9''"
    for opts e d
    using new that by (simp add: upsertChat_new)
  have p3: "fst (POST_day3 (Some bob_session) hi_body 7 alice_app) = Inr DataStreamResponse"
    by (auto simp: POST_day3_def hi_body_def alice_app_def call_upsertChat_def emit_def Let_def
        split: prod.splits sum.splits dest!: up)
  have p0: "fst (POST_part_000 (Some bob_session) hi_body 7 alice_app) = Inr DataStreamResponse"
    by (auto simp: POST_part_000_def hi_body_def alice_app_def call_upsertChat_def emit_def
        Let_def split: prod.splits sum.splits dest!: up)
  have l: "stream_calls (app_log alice_app) = []" by (simp add: alice_app_def)
  note t = streamText_budget_is_10 [where generate = hungry_model and dispatch = echo_tool
      and msgs = ?msgs and w = "()" and sess = "Some bob_session" and b = hi_body and now = 7
      and s = alice_app]
  from t have opts3: "streamText_options_day3 ?msgs =
       \<lparr>cfg_messages = ?msgs, maxSteps = 10, tool_names = [''searchWeb'', ''scrapePages'']\<rparr>"
    and opts0: "streamText_options_part_000 ?msgs =
       \<lparr>cfg_messages = ?msgs, maxSteps = 10, tool_names = [''searchWeb'']\<rparr>"
    by blast+
  from t have "stream_calls (app_log (snd (POST_day3 (Some bob_session) hi_body 7 alice_app))) =
     stream_calls (app_log alice_app) @
       (if fst (POST_day3 (Some bob_session) hi_body 7 alice_app) = Inr DataStreamResponse
        then [streamText_options_day3 ?msgs] else [])"
    by blast
  with p3 l opts3
  have c3: "stream_calls (app_log (snd (POST_day3 (Some bob_session) hi_body 7 alice_app)))
       = [\<lparr>cfg_messages = ?msgs, maxSteps = 10, tool_names = [''searchWeb'', ''scrapePages'']\<rparr>]"
    by simp
  from t have "stream_calls (app_log (snd (POST_part_000 (Some bob_session) hi_body 7 alice_app))) =
     stream_calls (app_log alice_app) @
       (if fst (POST_part_000 (Some bob_session) hi_body 7 alice_app) = Inr DataStreamResponse
        then [streamText_options_part_000 ?msgs] else [])"
    by blast
  with p0 l opts0
  have c0: "stream_calls (app_log (snd (POST_part_000 (Some bob_session) hi_body 7 alice_app)))
       = [\<lparr>cfg_messages = ?msgs, maxSteps = 10, tool_names = [''searchWeb'']\<rparr>]"
    by simp
  have h: "\<forall>t w. case hungry_model t w of (Inl e, w') \<Rightarrow> False
                  | (Inr out, w') \<Rightarrow> toolCalls out \<noteq> []"
    by (simp add: hungry_model_def)
  from t h obtain r w' where
    run: "streamText hungry_model echo_tool (streamText_options_day3 ?msgs) () = (Inr r, w')"
    and fin: "finish r = BudgetExhausted"
    by blast
  from t run fin have "length (steps r) = 10
      \<and> final_text r = Some (step_text (model_output (last (steps r))))"
    by blast
  moreover from t have "fst (snd (streamText (\<lambda>t. counted (hungry_model t))
       (\<lambda>call. uncounted (echo_tool call)) (streamText_options_day3 ?msgs) (0, ()))) \<le> 10"
    by blast
  ultimately show ?thesis using run fin exact p3 p0 c3 c0 by blast
qed

end
